theory Spec2Isabelle
  imports Complex_Main "HOL-Library.Multiset"
begin

section \<open>Python values\<close>

text \<open>
  A Python \<open>str\<close> is a sequence of Unicode code points; it is modelled as a list of
  natural numbers, so that the rupee sign U+20B9 is one character.  ASCII literals of the
  source are written with \<open>ascii\<close>.
\<close>

type_synonym ustr = "nat list"

definition ascii :: "string \<Rightarrow> ustr" where
  "ascii s = map of_char s"

definition rupee :: nat where
  "rupee = 8377"

definition startswith :: "ustr \<Rightarrow> ustr \<Rightarrow> bool" where
  "startswith s p = (take (length p) s = p)"

text \<open>\<open>sub in s\<close> on strings: \<open>sub\<close> occurs at some position of \<open>s\<close>.\<close>

fun contains :: "ustr \<Rightarrow> ustr \<Rightarrow> bool" where
  "contains [] sub = (sub = [])"
| "contains (c # s) sub = (startswith (c # s) sub \<or> contains s sub)"

text \<open>
  Character classes.  \<open>is_space\<close> lists the code points for which \<open>str.isspace\<close> holds
  (they are what \<open>\s\<close> matches and what \<open>str.strip\<close> removes).  \<open>is_digit\<close> and
  \<open>lower_cp\<close> cover the ASCII range: decimal digits and cased letters of other scripts
  are treated as ordinary characters.
\<close>

definition is_digit :: "nat \<Rightarrow> bool" where
  "is_digit c = (48 \<le> c \<and> c \<le> 57)"

definition is_space :: "nat \<Rightarrow> bool" where
  "is_space c = (c \<in> {9, 10, 11, 12, 13, 28, 29, 30, 31, 32, 133, 160, 5760,
                        8232, 8233, 8239, 8287, 12288} \<or> (8192 \<le> c \<and> c \<le> 8202))"

definition lower_cp :: "nat \<Rightarrow> nat" where
  "lower_cp c = (if 65 \<le> c \<and> c \<le> 90 then c + 32 else c)"

definition lower :: "ustr \<Rightarrow> ustr" where
  "lower s = map lower_cp s"

definition strip :: "ustr \<Rightarrow> ustr" where
  "strip s = rev (dropWhile is_space (rev (dropWhile is_space s)))"

fun join :: "ustr \<Rightarrow> ustr list \<Rightarrow> ustr" where
  "join sep [] = []"
| "join sep [x] = x"
| "join sep (x # y # xs) = x @ sep @ join sep (y # xs)"

datatype py_error = TypeError | ValueError | AttributeError | OtherError

section \<open>Regular expressions (the fragment of \<open>re\<close> the extractor uses)\<close>

text \<open>
  A backtracking matcher: \<open>matches p s\<close> lists every way \<open>p\<close> matches a prefix of \<open>s\<close>, in
  the order in which Python's engine tries them (greedy repetition first, the optional part
  before its omission).  A match is the consumed prefix, the text of capture group 1 if the
  group took part, and the rest of the input.  \<open>re.search\<close> takes the first way at the
  leftmost start position that has one.
\<close>

datatype rx = Eps | Sym "nat \<Rightarrow> bool" | Seq rx rx | Opt rx | Star rx | Grp rx

type_synonym rmatch = "ustr \<times> ustr option \<times> ustr"

fun extend_match :: "ustr \<Rightarrow> ustr option \<Rightarrow> rmatch \<Rightarrow> rmatch" where
  "extend_match c g (c', g', r') = (c @ c', (case g' of None \<Rightarrow> g | Some x \<Rightarrow> Some x), r')"

fun then_matches :: "rmatch list \<Rightarrow> (ustr \<Rightarrow> rmatch list) \<Rightarrow> rmatch list" where
  "then_matches [] k = []"
| "then_matches ((c, g, r) # ms) k = map (extend_match c g) (k r) @ then_matches ms k"

fun nonempty_matches :: "rmatch list \<Rightarrow> rmatch list" where
  "nonempty_matches [] = []"
| "nonempty_matches ((c, g, r) # ms) =
     (if c = [] then nonempty_matches ms else (c, g, r) # nonempty_matches ms)"

primrec star_matches :: "'a list \<Rightarrow> (ustr \<Rightarrow> rmatch list) \<Rightarrow> ustr \<Rightarrow> rmatch list" where
  "star_matches [] m s = [([], None, s)]"
| "star_matches (x # fuel) m s =
     then_matches (nonempty_matches (m s)) (star_matches fuel m) @ [([], None, s)]"

fun set_group :: "rmatch \<Rightarrow> rmatch" where
  "set_group (c, g, r) = (c, Some c, r)"

primrec matches :: "rx \<Rightarrow> ustr \<Rightarrow> rmatch list" where
  "matches Eps s = [([], None, s)]"
| "matches (Sym P) s = (case s of [] \<Rightarrow> [] | c # r \<Rightarrow> if P c then [([c], None, r)] else [])"
| "matches (Seq a b) s = then_matches (matches a s) (matches b)"
| "matches (Opt a) s = matches a s @ [([], None, s)]"
| "matches (Star a) s = star_matches s (matches a) s"
| "matches (Grp a) s = map set_group (matches a s)"

fun re_search :: "rx \<Rightarrow> ustr \<Rightarrow> rmatch option" where
  "re_search p [] = (case matches p [] of [] \<Rightarrow> None | m # _ \<Rightarrow> Some m)"
| "re_search p (c # t) = (case matches p (c # t) of [] \<Rightarrow> re_search p t | m # _ \<Rightarrow> Some m)"

definition group1 :: "rmatch \<Rightarrow> ustr option" where
  "group1 m = fst (snd m)"

text \<open>Pattern building blocks; \<open>chr_i\<close> and \<open>lit_i\<close> match under \<open>re.IGNORECASE\<close>.\<close>

definition chr :: "char \<Rightarrow> rx" where
  "chr c = Sym (\<lambda>x. x = of_char c)"

definition chr_i :: "char \<Rightarrow> rx" where
  "chr_i c = Sym (\<lambda>x. lower_cp x = lower_cp (of_char c))"

definition lit_i :: "string \<Rightarrow> rx" where
  "lit_i s = foldr (\<lambda>c r. Seq (chr_i c) r) s Eps"

definition plus :: "rx \<Rightarrow> rx" where
  "plus a = Seq a (Star a)"

definition twice :: "rx \<Rightarrow> rx" where
  "twice a = Seq a a"

definition thrice :: "rx \<Rightarrow> rx" where
  "thrice a = Seq a (Seq a a)"

text \<open>
  Three syntactic checks on a pattern, used to describe its matches: every character it
  can consume satisfies \<open>Q\<close>; every character inside its capture group satisfies \<open>Q\<close>; the
  capture group takes part in every match.
\<close>

primrec sym_all :: "(nat \<Rightarrow> bool) \<Rightarrow> rx \<Rightarrow> bool" where
  "sym_all Q Eps = True"
| "sym_all Q (Sym P) = (\<forall>c. P c \<longrightarrow> Q c)"
| "sym_all Q (Seq a b) = (sym_all Q a \<and> sym_all Q b)"
| "sym_all Q (Opt a) = sym_all Q a"
| "sym_all Q (Star a) = sym_all Q a"
| "sym_all Q (Grp a) = sym_all Q a"

primrec grp_all :: "(nat \<Rightarrow> bool) \<Rightarrow> rx \<Rightarrow> bool" where
  "grp_all Q Eps = True"
| "grp_all Q (Sym P) = True"
| "grp_all Q (Seq a b) = (grp_all Q a \<and> grp_all Q b)"
| "grp_all Q (Opt a) = grp_all Q a"
| "grp_all Q (Star a) = grp_all Q a"
| "grp_all Q (Grp a) = sym_all Q a"

primrec grp_sure :: "rx \<Rightarrow> bool" where
  "grp_sure Eps = False"
| "grp_sure (Sym P) = False"
| "grp_sure (Seq a b) = (grp_sure a \<or> grp_sure b)"
| "grp_sure (Opt a) = False"
| "grp_sure (Star a) = False"
| "grp_sure (Grp a) = True"

section \<open>Content extractor (extractor.py)\<close>

subsection \<open>Price patterns and \<open>_extract_price\<close>\<close>

text \<open>
  \<open>number_rx\<close> is \<^verbatim>\<open>\d+(?:,\d{3})*(?:\.\d{2})?\<close>; the five entries of \<open>price_patterns\<close>
  are the patterns of \<open>ContentExtractor.__init__\<close>, in their order.
\<close>

definition digit :: rx where
  "digit = Sym is_digit"

definition spaces :: rx where
  "spaces = Star (Sym is_space)"

definition number_rx :: rx where
  "number_rx = Seq (plus digit) (Seq (Star (Seq (chr CHR '','') (thrice digit)))
                                     (Opt (Seq (chr CHR ''.'') (twice digit))))"

definition price_patterns :: "rx list" where
  "price_patterns =
    [Seq (Sym (\<lambda>x. x = rupee)) (Seq spaces (Grp number_rx)),
     Seq (lit_i ''Rs'') (Seq (Opt (chr CHR ''.'')) (Seq spaces (Grp number_rx))),
     Seq (lit_i ''INR'') (Seq spaces (Grp number_rx)),
     Seq (Grp number_rx) (Seq spaces (Seq (lit_i ''rupee'') (Opt (chr_i CHR ''s'')))),
     Seq (Grp number_rx) (Seq spaces (Sym (\<lambda>x. x = rupee)))]"

definition currency_symbols :: "ustr list" where
  "currency_symbols = [[rupee], ascii ''Rs'', ascii ''INR'']"

text \<open>
  The loop of \<open>_extract_price\<close> over the patterns.  \<open>match.group(1)\<close> is \<open>None\<close> when the
  group took no part in the match; the membership test on it would raise \<open>TypeError\<close>.
\<close>

fun first_price :: "rx list \<Rightarrow> ustr \<Rightarrow> py_error + ustr option" where
  "first_price [] text = Inr None"
| "first_price (p # ps) text =
     (case re_search p text of
        None \<Rightarrow> first_price ps text
      | Some m \<Rightarrow>
          (case group1 m of
             None \<Rightarrow> Inl TypeError
           | Some price \<Rightarrow>
               Inr (Some (if \<not> list_ex (\<lambda>symbol. contains price symbol) currency_symbols
                          then rupee # price else price))))"

definition extract_price :: "ustr \<Rightarrow> py_error + ustr option" where
  "extract_price text = (if text = [] then Inr None else first_price price_patterns text)"

text \<open>The characters of a numeric token: digits, the comma and the full stop.\<close>

definition token_char :: "nat \<Rightarrow> bool" where
  "token_char c = (is_digit c \<or> c = 44 \<or> c = 46)"

subsection \<open>\<open>ContentExtractor._normalize_url\<close>\<close>

definition normalize_url :: "ustr \<Rightarrow> ustr" where
  "normalize_url url =
     (if url = [] then []
      else if \<not> (startswith url (ascii ''http://'') \<or> startswith url (ascii ''https://''))
      then (if startswith url (ascii ''//'') then ascii ''https:'' @ url
            else if startswith url (ascii ''/'') then ascii ''https://example.com'' @ url
            else ascii ''https://'' @ url)
      else url)"

subsection \<open>Records and the cross-record operations\<close>

text \<open>
  \<open>ExtractedData\<close>: six optional strings and the raw source data, whose type the
  operations never inspect.
\<close>

record 'r ExtractedData =
  title :: "ustr option"
  price :: "ustr option"
  url :: "ustr option"
  description :: "ustr option"
  rating :: "ustr option"
  image_url :: "ustr option"
  raw_data :: 'r

text \<open>
  The numeric token of a price string, \<open>re.search(r'(\d+(?:,\d{3})*(?:\.\d{2})?)', s).group(1)\<close>,
  and its value \<open>float(token.replace(',', ''))\<close>.  \<open>py_float\<close> reads unsigned decimal
  numerals, which is all a token can be after its commas are removed; any other string
  is a \<open>ValueError\<close> here.
\<close>

definition number_token :: "ustr \<Rightarrow> ustr option" where
  "number_token s = (case re_search (Grp number_rx) s of None \<Rightarrow> None | Some m \<Rightarrow> group1 m)"

definition remove_commas :: "ustr \<Rightarrow> ustr" where
  "remove_commas s = filter (\<lambda>c. c \<noteq> 44) s"

definition digits_val :: "ustr \<Rightarrow> nat" where
  "digits_val s = foldl (\<lambda>a c. 10 * a + (c - 48)) 0 s"

definition py_float :: "ustr \<Rightarrow> py_error + rat" where
  "py_float s =
     (let ip = takeWhile is_digit s in
      case dropWhile is_digit s of
        [] \<Rightarrow> if ip = [] then Inl ValueError else Inr (of_nat (digits_val ip))
      | c # fr \<Rightarrow>
          if c = 46 \<and> list_all is_digit fr \<and> (ip \<noteq> [] \<or> fr \<noteq> [])
          then Inr (of_nat (digits_val ip) + of_nat (digits_val fr) / 10 ^ length fr)
          else Inl ValueError)"

text \<open>
  A bound is tested by its truth value: \<open>None\<close> and \<open>0\<close> are false.  \<open>above b v\<close> is
  \<open>b and v > b\<close>, \<open>below b v\<close> is \<open>b and v < b\<close>.  Prices are exact decimal numbers:
  the rounding of \<open>float\<close> to binary is not modelled.
\<close>

definition bound_active :: "rat option \<Rightarrow> bool" where
  "bound_active b = (case b of None \<Rightarrow> False | Some m \<Rightarrow> m \<noteq> 0)"

definition above :: "rat option \<Rightarrow> rat \<Rightarrow> bool" where
  "above b v = (case b of None \<Rightarrow> False | Some m \<Rightarrow> m \<noteq> 0 \<and> v > m)"

definition below :: "rat option \<Rightarrow> rat \<Rightarrow> bool" where
  "below b v = (case b of None \<Rightarrow> False | Some m \<Rightarrow> m \<noteq> 0 \<and> v < m)"

fun filter_loop :: "rat option \<Rightarrow> rat option \<Rightarrow> 'r ExtractedData list \<Rightarrow> 'r ExtractedData list" where
  "filter_loop max_price min_price [] = []"
| "filter_loop max_price min_price (item # rest) =
     (case price item of
        None \<Rightarrow> filter_loop max_price min_price rest
      | Some p \<Rightarrow>
          if p = [] then filter_loop max_price min_price rest
          else (case number_token p of
                  None \<Rightarrow> filter_loop max_price min_price rest
                | Some tok \<Rightarrow>
                    (case py_float (remove_commas tok) of
                       Inl e \<Rightarrow> filter_loop max_price min_price rest
                     | Inr price_value \<Rightarrow>
                         if above max_price price_value
                         then filter_loop max_price min_price rest
                         else if below min_price price_value
                         then filter_loop max_price min_price rest
                         else item # filter_loop max_price min_price rest)))"

definition filter_by_price ::
    "'r ExtractedData list \<Rightarrow> rat option \<Rightarrow> rat option \<Rightarrow> 'r ExtractedData list" where
  "filter_by_price data max_price min_price =
     (if \<not> bound_active max_price \<and> \<not> bound_active min_price then data
      else filter_loop max_price min_price data)"

text \<open>
  For the statements about the filter: the price of a record as \<open>filter_by_price\<close> reads
  it (\<open>None\<close> when the price is absent, empty or has no numeric token), the test a parsed
  price has to pass, and the two together.
\<close>

definition parsed_price :: "'r ExtractedData \<Rightarrow> rat option" where
  "parsed_price item =
     (case price item of
        None \<Rightarrow> None
      | Some p \<Rightarrow>
          if p = [] then None
          else (case number_token p of
                  None \<Rightarrow> None
                | Some tok \<Rightarrow> (case py_float (remove_commas tok) of Inl e \<Rightarrow> None | Inr v \<Rightarrow> Some v)))"

definition within_bounds :: "rat option \<Rightarrow> rat option \<Rightarrow> rat \<Rightarrow> bool" where
  "within_bounds max_price min_price v =
     (\<not> above max_price v \<and> \<not> below min_price v)"

definition keeps :: "rat option \<Rightarrow> rat option \<Rightarrow> 'r ExtractedData \<Rightarrow> bool" where
  "keeps mx mn item = (case parsed_price item of None \<Rightarrow> False | Some v \<Rightarrow> within_bounds mx mn v)"

text \<open>A record that has a price and nothing else, for the examples.\<close>

definition priced :: "ustr option \<Rightarrow> unit ExtractedData" where
  "priced p = \<lparr>title = None, price = p, url = None, description = None, rating = None,
                image_url = None, raw_data = ()\<rparr>"

subsection \<open>\<open>sort_by_price\<close>\<close>

text \<open>
  Sort keys are Python floats: a finite value or \<open>float('inf')\<close>.  \<open>sorted\<close> is stable;
  with \<open>reverse=True\<close> it sorts in descending order and still keeps equal keys in their
  original order, which is what reversing, sorting and reversing again does.
\<close>

datatype pyfloat = Fin rat | PosInf

instantiation pyfloat :: linorder
begin

fun less_eq_pyfloat :: "pyfloat \<Rightarrow> pyfloat \<Rightarrow> bool" where
  "less_eq_pyfloat x PosInf = True"
| "less_eq_pyfloat PosInf (Fin b) = False"
| "less_eq_pyfloat (Fin a) (Fin b) = (a \<le> b)"

definition less_pyfloat :: "pyfloat \<Rightarrow> pyfloat \<Rightarrow> bool" where
  "less_pyfloat x y = (x \<le> y \<and> \<not> y \<le> x)"

instance
proof
  fix x y z :: pyfloat
  show "(x < y) = (x \<le> y \<and> \<not> y \<le> x)" by (simp add: less_pyfloat_def)
  show "x \<le> x" by (cases x) simp_all
  show "x \<le> y \<Longrightarrow> y \<le> z \<Longrightarrow> x \<le> z" by (cases x; cases y; cases z) simp_all
  show "x \<le> y \<Longrightarrow> y \<le> x \<Longrightarrow> x = y" by (cases x; cases y) simp_all
  show "x \<le> y \<or> y \<le> x" by (cases x; cases y) auto
qed

end

definition py_sorted :: "('a \<Rightarrow> 'k::linorder) \<Rightarrow> bool \<Rightarrow> 'a list \<Rightarrow> 'a list" where
  "py_sorted key reverse xs = (if reverse then rev (sort_key key (rev xs)) else sort_key key xs)"

definition get_price_value :: "bool \<Rightarrow> 'r ExtractedData \<Rightarrow> pyfloat" where
  "get_price_value reverse item =
     (case price item of
        None \<Rightarrow> if reverse then PosInf else Fin 0
      | Some p \<Rightarrow>
          if p = [] then (if reverse then PosInf else Fin 0)
          else (case number_token p of
                  None \<Rightarrow> if reverse then PosInf else Fin 0
                | Some tok \<Rightarrow>
                    (case py_float (remove_commas tok) of
                       Inl e \<Rightarrow> if reverse then PosInf else Fin 0
                     | Inr v \<Rightarrow> Fin v)))"

definition sort_by_price :: "'r ExtractedData list \<Rightarrow> bool \<Rightarrow> 'r ExtractedData list" where
  "sort_by_price data reverse = py_sorted (get_price_value reverse) reverse data"

subsection \<open>\<open>deduplicate\<close>\<close>

text \<open>
  \<open>getattr_text raw_text item field\<close> is the string \<open>str(value)\<close> added to the key for
  \<open>value = getattr(item, field, '')\<close>, or \<open>None\<close> when the value is false (absent, \<open>None\<close>
  or empty) and the field is skipped.  The record has the seven declared fields; any other
  name gets the default \<open>''\<close>.  \<open>raw_text\<close> renders the raw data, whose type is left open.
\<close>

definition nonempty :: "ustr option \<Rightarrow> ustr option" where
  "nonempty v = (case v of None \<Rightarrow> None | Some s \<Rightarrow> if s = [] then None else Some s)"

definition getattr_text :: "('r \<Rightarrow> ustr option) \<Rightarrow> 'r ExtractedData \<Rightarrow> ustr \<Rightarrow> ustr option" where
  "getattr_text raw_text item field =
     (if field = ascii ''title'' then nonempty (title item)
      else if field = ascii ''price'' then nonempty (price item)
      else if field = ascii ''url'' then nonempty (url item)
      else if field = ascii ''description'' then nonempty (description item)
      else if field = ascii ''rating'' then nonempty (rating item)
      else if field = ascii ''image_url'' then nonempty (image_url item)
      else if field = ascii ''raw_data'' then raw_text (raw_data item)
      else None)"

fun key_parts :: "('r \<Rightarrow> ustr option) \<Rightarrow> 'r ExtractedData \<Rightarrow> ustr list \<Rightarrow> ustr list" where
  "key_parts raw_text item [] = []"
| "key_parts raw_text item (field # rest) =
     (case getattr_text raw_text item field of
        None \<Rightarrow> key_parts raw_text item rest
      | Some v \<Rightarrow> strip (lower v) # key_parts raw_text item rest)"

fun dedup_loop ::
    "('r \<Rightarrow> ustr option) \<Rightarrow> ustr list \<Rightarrow> ustr set \<Rightarrow> 'r ExtractedData list \<Rightarrow> 'r ExtractedData list" where
  "dedup_loop raw_text key_fields seen [] = []"
| "dedup_loop raw_text key_fields seen (item # rest) =
     (let key = join (ascii ''|'') (key_parts raw_text item key_fields)
      in if key \<notin> seen
         then item # dedup_loop raw_text key_fields (insert key seen) rest
         else dedup_loop raw_text key_fields seen rest)"

definition deduplicate ::
    "('r \<Rightarrow> ustr option) \<Rightarrow> 'r ExtractedData list \<Rightarrow> ustr list option \<Rightarrow> 'r ExtractedData list" where
  "deduplicate raw_text data key_fields =
     dedup_loop raw_text
       (case key_fields of
          None \<Rightarrow> [ascii ''title'', ascii ''url'']
        | Some fs \<Rightarrow> if fs = [] then [ascii ''title'', ascii ''url''] else fs)
       {} data"

section \<open>Dynamically typed values\<close>

text \<open>
  The parser fills the intent from decoded JSON without checking types, and the planner and
  the orchestrator read those fields again.  The fields are therefore Python values: what
  \<open>json.loads\<close> can produce and what the code builds itself.  A JSON number is an
  integer or a float; \<open>json.loads\<close> also accepts \<open>NaN\<close>, \<open>Infinity\<close> and \<open>-Infinity\<close>.  A
  finite float is its exact value (rounding to binary is not modelled).  A dictionary is an
  association list with string keys, looked up with \<open>map_of\<close>.
\<close>

datatype float_value = Num rat | PlusInf | MinusInf | NaN

datatype pyval =
    PNone
  | PBool bool
  | PInt int
  | PFloat float_value
  | PStr ustr
  | PList "pyval list"
  | PDict "(ustr \<times> pyval) list"

fun truthy :: "pyval \<Rightarrow> bool" where
  "truthy PNone = False"
| "truthy (PBool b) = b"
| "truthy (PInt n) = (n \<noteq> 0)"
| "truthy (PFloat f) = (f \<noteq> Num 0)"
| "truthy (PStr s) = (s \<noteq> [])"
| "truthy (PList xs) = (xs \<noteq> [])"
| "truthy (PDict kvs) = (kvs \<noteq> [])"

fun hashable :: "pyval \<Rightarrow> bool" where
  "hashable (PList xs) = False"
| "hashable (PDict kvs) = False"
| "hashable v = True"

definition str :: "string \<Rightarrow> pyval" where
  "str s = PStr (ascii s)"

definition dict :: "(string \<times> pyval) list \<Rightarrow> pyval" where
  "dict kvs = PDict (map (\<lambda>(k, v). (ascii k, v)) kvs)"

text \<open>\<open>d.get(key, default)\<close> on the entries of a dictionary.\<close>

definition get_or :: "(ustr \<times> pyval) list \<Rightarrow> string \<Rightarrow> pyval \<Rightarrow> pyval" where
  "get_or kvs key dflt = (case map_of kvs (ascii key) of None \<Rightarrow> dflt | Some v \<Rightarrow> v)"

section \<open>Intent parser (parser.py)\<close>

record ParsedInstruction =
  task :: pyval
  query :: pyval
  filters :: pyval
  count_pi :: pyval
  fields_pi :: pyval
  target_url :: pyval
  selectors :: pyval
  actions :: pyval
  raw_instruction :: ustr

text \<open>
  What the try block of \<open>parse\<close> gets from the language model: the call raises, or the text
  it returns is not JSON (\<open>json.loads\<close> raises), or it decodes to a value.
\<close>

datatype llm_reply = LLMFails | NotJson | Decoded pyval

definition search_selectors :: pyval where
  "search_selectors = dict
     [(''search_box'', str ''input[name=\"q\"], input[name=\"search\"], input[type=\"search\"]''),
      (''search_button'', str ''button[type=\"submit\"], input[type=\"submit\"], .search-button''),
      (''results'', str ''.result, .search-result, .product-item, .item''),
      (''title'', str ''h1, h2, h3, .title, .name''),
      (''price'', str ''.price, .cost, [class*=\"price\"]''),
      (''link'', str ''a, .link'')]"

definition navigate_selectors :: pyval where
  "navigate_selectors = dict
     [(''page_content'', str ''body, main, .content''),
      (''navigation'', str ''nav, .nav, .menu'')]"

definition extract_selectors :: pyval where
  "extract_selectors = dict
     [(''content'', str ''body, main, .content, .article''),
      (''title'', str ''h1, .title, .headline''),
      (''text'', str ''p, .text, .description'')]"

definition get_default_selectors :: "pyval \<Rightarrow> py_error + pyval" where
  "get_default_selectors t =
     (if \<not> hashable t then Inl TypeError
      else Inr (if t = str ''search'' then search_selectors
                else if t = str ''navigate'' then navigate_selectors
                else if t = str ''extract'' then extract_selectors
                else search_selectors))"

definition get_default_actions :: "ParsedInstruction \<Rightarrow> pyval" where
  "get_default_actions parsed =
     (if task parsed = str ''search'' then PList
        [dict [(''action'', str ''goto''), (''url'', target_url parsed)],
         dict [(''action'', str ''fill''), (''selector'', str ''input[name=\"q\"]''),
               (''value'', query parsed)],
         dict [(''action'', str ''click''), (''selector'', str ''button[type=\"submit\"]'')],
         dict [(''action'', str ''wait''), (''timeout'', PInt 3)],
         dict [(''action'', str ''extract''), (''selector'', str ''.result''),
               (''multiple'', PBool True)]]
      else if task parsed = str ''navigate'' then PList
        [dict [(''action'', str ''goto''), (''url'', target_url parsed)],
         dict [(''action'', str ''wait''), (''timeout'', PInt 2)]]
      else if task parsed = str ''extract'' then PList
        [dict [(''action'', str ''goto''), (''url'', target_url parsed)],
         dict [(''action'', str ''wait''), (''timeout'', PInt 2)],
         dict [(''action'', str ''extract''), (''selector'', str ''body''),
               (''multiple'', PBool False)]]
      else PList [])"

definition get_default_url :: "pyval \<Rightarrow> py_error + pyval" where
  "get_default_url t =
     (if \<not> hashable t then Inl TypeError
      else Inr (if t = str ''search'' then str ''https://www.google.com''
                else if t = str ''navigate'' then str ''https://www.example.com''
                else if t = str ''extract'' then str ''https://www.example.com''
                else if t = str ''fill_form'' then str ''https://www.example.com/contact''
                else if t = str ''click'' then str ''https://www.example.com''
                else if t = str ''screenshot'' then str ''https://www.example.com''
                else str ''https://www.google.com''))"

text \<open>The five repairs of \<open>_validate_and_enhance\<close>, in the order of the source.\<close>

definition ensure_task :: "ParsedInstruction \<Rightarrow> ParsedInstruction" where
  "ensure_task parsed = (if \<not> truthy (task parsed) then parsed\<lparr>task := str ''search''\<rparr> else parsed)"

definition ensure_query :: "ParsedInstruction \<Rightarrow> ParsedInstruction" where
  "ensure_query parsed =
     (if \<not> truthy (query parsed) then parsed\<lparr>query := PStr (raw_instruction parsed)\<rparr> else parsed)"

definition ensure_selectors :: "ParsedInstruction \<Rightarrow> py_error + ParsedInstruction" where
  "ensure_selectors parsed =
     (if \<not> truthy (selectors parsed)
      then (case get_default_selectors (task parsed) of
              Inl e \<Rightarrow> Inl e
            | Inr sel \<Rightarrow> Inr (parsed\<lparr>selectors := sel\<rparr>))
      else Inr parsed)"

definition ensure_actions :: "ParsedInstruction \<Rightarrow> ParsedInstruction" where
  "ensure_actions parsed =
     (if \<not> truthy (actions parsed) then parsed\<lparr>actions := get_default_actions parsed\<rparr> else parsed)"

definition ensure_target_url :: "ParsedInstruction \<Rightarrow> py_error + ParsedInstruction" where
  "ensure_target_url parsed =
     (if \<not> truthy (target_url parsed)
      then (case get_default_url (task parsed) of
              Inl e \<Rightarrow> Inl e
            | Inr u \<Rightarrow> Inr (parsed\<lparr>target_url := u\<rparr>))
      else Inr parsed)"

definition validate_and_enhance :: "ParsedInstruction \<Rightarrow> py_error + ParsedInstruction" where
  "validate_and_enhance parsed =
     (case ensure_selectors (ensure_query (ensure_task parsed)) of
        Inl e \<Rightarrow> Inl e
      | Inr parsed3 \<Rightarrow> ensure_target_url (ensure_actions parsed3))"

definition fallback_task :: "ustr \<Rightarrow> pyval" where
  "fallback_task instruction =
     (let instruction_lower = lower instruction
      in if contains instruction_lower (ascii ''search'') then str ''search''
         else if contains instruction_lower (ascii ''navigate'')
                 \<or> contains instruction_lower (ascii ''go to'') then str ''navigate''
         else if contains instruction_lower (ascii ''extract'')
                 \<or> contains instruction_lower (ascii ''get'') then str ''extract''
         else if contains instruction_lower (ascii ''fill'')
                 \<or> contains instruction_lower (ascii ''form'') then str ''fill_form''
         else str ''search'')"

definition create_fallback_instruction :: "ustr \<Rightarrow> py_error + ParsedInstruction" where
  "create_fallback_instruction instruction =
     (let t = fallback_task instruction; q = PStr instruction
      in case get_default_url t of
           Inl e \<Rightarrow> Inl e
         | Inr u \<Rightarrow>
             (case get_default_selectors t of
                Inl e \<Rightarrow> Inl e
              | Inr sel \<Rightarrow>
                  Inr \<lparr>task = t, query = q, filters = PDict [], count_pi = PInt 5,
                       fields_pi = PList [str ''title'', str ''url''], target_url = u,
                       selectors = sel,
                       actions = get_default_actions
                         \<lparr>task = t, query = q, filters = PDict [], count_pi = PInt 5,
                          fields_pi = PList [str ''title'', str ''url''], target_url = PNone,
                          selectors = PDict [], actions = PList [],
                          raw_instruction = instruction\<rparr>,
                       raw_instruction = instruction\<rparr>))"

definition parse_body :: "llm_reply \<Rightarrow> ustr \<Rightarrow> py_error + ParsedInstruction" where
  "parse_body reply instruction =
     (case reply of
        LLMFails \<Rightarrow> Inl OtherError
      | NotJson \<Rightarrow> Inl ValueError
      | Decoded plan_data \<Rightarrow>
          (case plan_data of
             PDict kvs \<Rightarrow>
               validate_and_enhance
                 \<lparr>task = get_or kvs ''task'' (str ''search''),
                  query = get_or kvs ''query'' (PStr instruction),
                  filters = get_or kvs ''filters'' (PDict []),
                  count_pi = get_or kvs ''count'' (PInt 5),
                  fields_pi = get_or kvs ''fields'' (PList [str ''title'', str ''url'']),
                  target_url = get_or kvs ''target_url'' PNone,
                  selectors = get_or kvs ''selectors'' (PDict []),
                  actions = get_or kvs ''actions'' (PList []),
                  raw_instruction = instruction\<rparr>
           | _ \<Rightarrow> Inl AttributeError))"

definition parse :: "llm_reply \<Rightarrow> ustr \<Rightarrow> py_error + ParsedInstruction" where
  "parse reply instruction =
     (case parse_body reply instruction of
        Inr parsed \<Rightarrow> Inr parsed
      | Inl e \<Rightarrow> create_fallback_instruction instruction)"


section \<open>Step planner (planner.py)\<close>

text \<open>
  A \<open>Step\<close> as the dataclass declares it.  Its fields hold whatever the intent's action
  dictionaries held, so they are Python values too.  \<open>new_step\<close> is the constructor with
  \<open>__post_init__\<close>, which replaces a metadata of \<open>None\<close> by an empty dictionary.
\<close>

record Step =
  action :: pyval
  selector :: pyval
  step_value :: pyval
  step_url :: pyval
  timeout :: pyval
  multiple :: pyval
  retries :: pyval
  step_metadata :: pyval

definition new_step ::
    "pyval \<Rightarrow> pyval \<Rightarrow> pyval \<Rightarrow> pyval \<Rightarrow> pyval \<Rightarrow> pyval \<Rightarrow> pyval \<Rightarrow> pyval \<Rightarrow> Step" where
  "new_step a sel v u t m r md =
     \<lparr>action = a, selector = sel, step_value = v, step_url = u, timeout = t, multiple = m,
      retries = r, step_metadata = (if md = PNone then PDict [] else md)\<rparr>"

definition bind_err :: "py_error + 'a \<Rightarrow> ('a \<Rightarrow> py_error + 'b) \<Rightarrow> py_error + 'b" where
  "bind_err x f = (case x of Inl e \<Rightarrow> Inl e | Inr v \<Rightarrow> f v)"

definition template_step :: "string \<Rightarrow> int \<Rightarrow> (ustr \<times> pyval) list" where
  "template_step a t = [(ascii ''action'', str a), (ascii ''timeout'', PInt t)]"

definition template_extract :: "(ustr \<times> pyval) list" where
  "template_extract = [(ascii ''action'', str ''extract''), (ascii ''timeout'', PInt 10),
                       (ascii ''multiple'', PBool True)]"

definition step_templates :: "pyval \<Rightarrow> (ustr \<times> pyval) list list" where
  "step_templates t =
     (if t = str ''search'' then
        [template_step ''goto'' 15, template_step ''wait'' 2, template_step ''fill'' 10,
         template_step ''click'' 10, template_step ''wait'' 5, template_extract]
      else if t = str ''navigate'' then
        [template_step ''goto'' 15, template_step ''wait'' 3]
      else if t = str ''extract'' then
        [template_step ''goto'' 15, template_step ''wait'' 3, template_extract]
      else if t = str ''fill_form'' then
        [template_step ''goto'' 15, template_step ''wait'' 2, template_step ''fill'' 10,
         template_step ''click'' 10]
      else if t = str ''click'' then
        [template_step ''goto'' 15, template_step ''wait'' 2, template_step ''click'' 10]
      else if t = str ''screenshot'' then
        [template_step ''goto'' 15, template_step ''wait'' 3, template_step ''screenshot'' 5]
      else
        [template_step ''goto'' 15, template_step ''wait'' 2, template_step ''fill'' 10,
         template_step ''click'' 10, template_step ''wait'' 5, template_extract])"

text \<open>\<open>for x in v\<close>: lists give their elements, dictionaries their keys, strings their
  characters; nothing else can be iterated.\<close>

fun py_iter :: "pyval \<Rightarrow> py_error + pyval list" where
  "py_iter (PList xs) = Inr xs"
| "py_iter (PDict kvs) = Inr (map (\<lambda>kv. PStr (fst kv)) kvs)"
| "py_iter (PStr s) = Inr (map (\<lambda>c. PStr [c]) s)"
| "py_iter v = Inl TypeError"

fun convert_actions_to_steps :: "pyval list \<Rightarrow> py_error + Step list" where
  "convert_actions_to_steps [] = Inr []"
| "convert_actions_to_steps (a # rest) =
     (case a of
        PDict kvs \<Rightarrow>
          bind_err (convert_actions_to_steps rest) (\<lambda>steps.
            Inr (new_step (get_or kvs ''action'' (str ''goto'')) (get_or kvs ''selector'' PNone)
                   (get_or kvs ''value'' PNone) (get_or kvs ''url'' PNone)
                   (get_or kvs ''timeout'' (PInt 10)) (get_or kvs ''multiple'' (PBool False))
                   (get_or kvs ''retries'' (PInt 3)) (get_or kvs ''metadata'' (PDict []))
                 # steps))
      | _ \<Rightarrow> Inl AttributeError)"

definition generate_steps_from_template :: "ParsedInstruction \<Rightarrow> py_error + Step list" where
  "generate_steps_from_template parsed_instruction =
     (if \<not> hashable (task parsed_instruction) then Inl TypeError
      else Inr (map (\<lambda>ts. new_step (get_or ts ''action'' PNone) PNone PNone PNone
                              (get_or ts ''timeout'' (PInt 10)) (get_or ts ''multiple'' (PBool False))
                              (get_or ts ''retries'' (PInt 3)) PNone)
                    (step_templates (task parsed_instruction))))"

definition fallback_selectors :: "string \<Rightarrow> pyval" where
  "fallback_selectors selector_type =
     (if selector_type = ''search_box''
        then str ''input[name=\"q\"], input[type=\"search\"], input[placeholder*=\"search\"]''
      else if selector_type = ''search_button''
        then str ''button[type=\"submit\"], input[type=\"submit\"], .search-button''
      else if selector_type = ''results'' then str ''.result, .search-result, .product-item, .item''
      else if selector_type = ''title'' then str ''h1, h2, h3, .title, .name''
      else if selector_type = ''price'' then str ''.price, .cost, [class*=\"price\"]''
      else if selector_type = ''link'' then str ''a, .link''
      else str ''body'')"

text \<open>
  \<open>_get_selector\<close>: \<open>selector_type in selectors\<close> followed by \<open>selectors[selector_type]\<close>.
  On a dictionary this is a key lookup; a list or a string that holds the name passes the
  membership test and then cannot be indexed by a string; other values cannot be tested.
\<close>

definition get_selector :: "ParsedInstruction \<Rightarrow> string \<Rightarrow> py_error + pyval" where
  "get_selector parsed_instruction selector_type =
     (case selectors parsed_instruction of
        PDict kvs \<Rightarrow>
          (case map_of kvs (ascii selector_type) of
             Some v \<Rightarrow> Inr v
           | None \<Rightarrow> Inr (fallback_selectors selector_type))
      | PList xs \<Rightarrow>
          if str selector_type \<in> set xs then Inl TypeError
          else Inr (fallback_selectors selector_type)
      | PStr s \<Rightarrow>
          if contains s (ascii selector_type) then Inl TypeError
          else Inr (fallback_selectors selector_type)
      | _ \<Rightarrow> Inl TypeError)"

fun dict_set :: "ustr \<Rightarrow> pyval \<Rightarrow> (ustr \<times> pyval) list \<Rightarrow> (ustr \<times> pyval) list" where
  "dict_set k v [] = [(k, v)]"
| "dict_set k v ((k', v') # kvs) = (if k = k' then (k, v) # kvs else (k', v') # dict_set k v kvs)"

definition enhance_step :: "nat \<Rightarrow> Step \<Rightarrow> ParsedInstruction \<Rightarrow> py_error + Step" where
  "enhance_step i step0 parsed_instruction =
     (let step1 = (if action step0 = str ''goto'' \<and> \<not> truthy (step_url step0)
                   then step0\<lparr>step_url := target_url parsed_instruction\<rparr> else step0)
      in bind_err (if action step1 = str ''fill''
                   then bind_err (get_selector parsed_instruction ''search_box'') (\<lambda>sel.
                          Inr (step1\<lparr>selector := sel, step_value := query parsed_instruction\<rparr>))
                   else Inr step1) (\<lambda>step2.
         bind_err (if action step2 = str ''click''
                   then bind_err (get_selector parsed_instruction ''search_button'') (\<lambda>sel.
                          Inr (step2\<lparr>selector := sel\<rparr>))
                   else Inr step2) (\<lambda>step3.
         bind_err (if action step3 = str ''extract''
                   then bind_err (get_selector parsed_instruction ''results'') (\<lambda>sel.
                          Inr (step3\<lparr>selector := sel, multiple := PBool True\<rparr>))
                   else Inr step3) (\<lambda>step4.
         case step_metadata step4 of
           PDict kvs \<Rightarrow>
             Inr (step4\<lparr>step_metadata := PDict
                    (dict_set (ascii ''step_number'') (PInt (int i + 1))
                      (dict_set (ascii ''query'') (query parsed_instruction)
                        (dict_set (ascii ''task'') (task parsed_instruction) kvs)))\<rparr>)
         | _ \<Rightarrow> Inl AttributeError))))"

fun enhance_steps :: "nat \<Rightarrow> Step list \<Rightarrow> ParsedInstruction \<Rightarrow> py_error + Step list" where
  "enhance_steps i [] parsed_instruction = Inr []"
| "enhance_steps i (step # rest) parsed_instruction =
     bind_err (enhance_step i step parsed_instruction) (\<lambda>step'.
       bind_err (enhance_steps (Suc i) rest parsed_instruction) (\<lambda>rest'. Inr (step' # rest')))"

text \<open>
  \<open>k > f\<close> and \<open>f >= k\<close> for an integer \<open>k\<close> and a float \<open>f\<close>: every comparison with \<open>NaN\<close>
  is false.
\<close>

fun int_gt_float :: "int \<Rightarrow> float_value \<Rightarrow> bool" where
  "int_gt_float k (Num q) = (of_int k > q)"
| "int_gt_float k PlusInf = False"
| "int_gt_float k MinusInf = True"
| "int_gt_float k NaN = False"

fun float_ge_int :: "float_value \<Rightarrow> int \<Rightarrow> bool" where
  "float_ge_int (Num q) k = (q \<ge> of_int k)"
| "float_ge_int PlusInf k = True"
| "float_ge_int MinusInf k = False"
| "float_ge_int NaN k = False"

text \<open>\<open>max(v, k)\<close> for an integer \<open>k\<close>: \<open>k\<close> if \<open>k > v\<close>, else \<open>v\<close>; a Boolean compares
  as 0 or 1, anything that is not a number cannot be compared.  \<open>max(nan, k)\<close> is \<open>nan\<close>.\<close>

fun py_max :: "pyval \<Rightarrow> int \<Rightarrow> py_error + pyval" where
  "py_max (PInt n) k = Inr (if k > n then PInt k else PInt n)"
| "py_max (PBool b) k = Inr (if k > (if b then 1 else 0) then PInt k else PBool b)"
| "py_max (PFloat f) k = Inr (if int_gt_float k f then PInt k else PFloat f)"
| "py_max v k = Inl TypeError"

text \<open>\<open>v >= k\<close> for a number \<open>v\<close> and an integer \<open>k\<close>.\<close>

fun at_least :: "pyval \<Rightarrow> int \<Rightarrow> bool" where
  "at_least (PInt n) k = (n \<ge> k)"
| "at_least (PBool b) k = ((if b then 1 else 0) \<ge> k)"
| "at_least (PFloat f) k = float_ge_int f k"
| "at_least v k = False"

definition wait_step :: Step where
  "wait_step = new_step (str ''wait'') PNone PNone PNone (PInt 2) (PBool False) (PInt 3)
                 (dict [(''purpose'', str ''wait_after_action'')])"

definition harden_step :: "Step \<Rightarrow> py_error + Step list" where
  "harden_step step0 =
     bind_err (if action step0 \<in> {str ''click'', str ''fill'', str ''extract''}
               then bind_err (py_max (retries step0) 3) (\<lambda>r. Inr (step0\<lparr>retries := r\<rparr>))
               else Inr step0) (\<lambda>step1.
     bind_err (if action step1 = str ''goto''
               then bind_err (py_max (timeout step1) 15) (\<lambda>t. Inr (step1\<lparr>timeout := t\<rparr>))
               else Inr step1) (\<lambda>step2.
     Inr (if action step2 \<in> {str ''click'', str ''fill''} then [step2, wait_step] else [step2])))"

fun add_error_handling :: "Step list \<Rightarrow> py_error + Step list" where
  "add_error_handling [] = Inr []"
| "add_error_handling (step # rest) =
     bind_err (harden_step step) (\<lambda>out.
       bind_err (add_error_handling rest) (\<lambda>rest'. Inr (out @ rest')))"

definition fallback_metadata :: pyval where
  "fallback_metadata = dict [(''fallback'', PBool True)]"

definition create_fallback_steps :: "ParsedInstruction \<Rightarrow> Step list" where
  "create_fallback_steps parsed_instruction =
     [new_step (str ''goto'') PNone PNone
        (if truthy (target_url parsed_instruction) then target_url parsed_instruction
         else str ''https://www.google.com'')
        (PInt 15) (PBool False) (PInt 3) fallback_metadata,
      new_step (str ''wait'') PNone PNone PNone (PInt 3) (PBool False) (PInt 3) fallback_metadata]
     @ (if task parsed_instruction = str ''search'' then
          [new_step (str ''fill'') (str ''input[name=\"q\"]'') (query parsed_instruction) PNone
             (PInt 10) (PBool False) (PInt 3) fallback_metadata,
           new_step (str ''click'') (str ''button[type=\"submit\"]'') PNone PNone
             (PInt 10) (PBool False) (PInt 3) fallback_metadata,
           new_step (str ''wait'') PNone PNone PNone (PInt 5) (PBool False) (PInt 3)
             fallback_metadata,
           new_step (str ''extract'') (str ''body'') PNone PNone (PInt 10) (PBool True) (PInt 3)
             fallback_metadata]
        else [])"

definition plan_body :: "ParsedInstruction \<Rightarrow> py_error + Step list" where
  "plan_body parsed_instruction =
     bind_err (if truthy (actions parsed_instruction)
               then bind_err (py_iter (actions parsed_instruction)) convert_actions_to_steps
               else generate_steps_from_template parsed_instruction) (\<lambda>steps0.
     bind_err (enhance_steps 0 steps0 parsed_instruction) add_error_handling)"

definition plan :: "ParsedInstruction \<Rightarrow> Step list" where
  "plan parsed_instruction =
     (case plan_body parsed_instruction of
        Inr steps \<Rightarrow> steps
      | Inl e \<Rightarrow> create_fallback_steps parsed_instruction)"

text \<open>
  The retry and timeout minimum of a step: the value is at least the minimum, or it is
  \<open>NaN\<close>, which \<open>max\<close> lets through.
\<close>

definition hardened :: "Step \<Rightarrow> bool" where
  "hardened s =
     ((action s \<in> {str ''click'', str ''fill'', str ''extract''}
         \<longrightarrow> at_least (retries s) 3 \<or> retries s = PFloat NaN)
      \<and> (action s = str ''goto'' \<longrightarrow> at_least (timeout s) 15 \<or> timeout s = PFloat NaN))"

text \<open>
  An intent whose actions ask for less than the minimum: a navigation with timeout 5 and a
  click with a single attempt.
\<close>

definition hasty_intent :: ParsedInstruction where
  "hasty_intent =
     \<lparr>task = str ''click'', query = str ''buy'', filters = PDict [], count_pi = PInt 5,
      fields_pi = PList [], target_url = str ''https://shop.in'', selectors = PDict [],
      actions = PList [dict [(''action'', str ''goto''), (''timeout'', PInt 5)],
                       dict [(''action'', str ''click''), (''retries'', PInt 1)]],
      raw_instruction = ascii ''buy''\<rparr>"

text \<open>
  The claim as it is written fails when an action of the intent carries \<open>NaN\<close>, which
  \<open>json.loads\<close> accepts and the parser passes on: \<open>max(nan, 3)\<close> and \<open>max(nan, 15)\<close> are
  \<open>nan\<close>, nothing raises, and the plan holds a \<open>goto\<close> step and a \<open>click\<close> step whose
  timeout and retry budget are not at least 15 and 3.  The reply of the model is
  \<^verbatim>\<open>{"task": "click", "actions": [{"action": "goto", "timeout": NaN},
  {"action": "click", "retries": NaN}]}\<close>.
\<close>

definition nan_reply :: llm_reply where
  "nan_reply = Decoded (dict
     [(''task'', str ''click''),
      (''actions'', PList [dict [(''action'', str ''goto''), (''timeout'', PFloat NaN)],
                           dict [(''action'', str ''click''), (''retries'', PFloat NaN)]])])"

section \<open>Execution engine (orchestrator.py)\<close>

text \<open>
  The browsing session is outside the program.  For one run it is fixed by what it answers
  to each call: \<open>browser i a\<close> is the answer to attempt \<open>a\<close> of the step at position \<open>i\<close> of
  the plan, either an exception or an \<open>ActionResult\<close> (its success flag and its data; error
  text, screenshot path and metadata play no part in the control flow).  The structured log
  is the list of the events the source logs, each with the position of its step.
\<close>

record ActionResult =
  res_success :: bool
  res_data :: pyval

datatype browser_reply = Raises | Returns ActionResult

datatype log_event =
    Executing nat
  | Retrying nat nat
  | RetriesExhausted nat
  | Completed nat
  | StepFailed nat
  | CriticalStop nat
  | ExecutionError nat

definition failed_result :: ActionResult where
  "failed_result = \<lparr>res_success = False, res_data = PNone\<rparr>"

definition browser_actions :: "pyval set" where
  "browser_actions = {str ''goto'', str ''click'', str ''fill'', str ''extract'', str ''wait'',
                      str ''screenshot''}"

text \<open>\<open>range(step.retries)\<close>: the number of attempts, when the budget is a number.\<close>

fun attempt_count :: "pyval \<Rightarrow> py_error + nat" where
  "attempt_count (PInt n) = Inr (nat n)"
| "attempt_count (PBool b) = Inr (if b then 1 else 0)"
| "attempt_count v = Inl TypeError"

text \<open>
  The retry loop: an attempt whose call returns ends the loop with that result, whatever
  its success flag; an attempt that raises (the call itself, or \<open>ValueError\<close> for an unknown
  action) is logged and the next attempt follows.
\<close>

fun try_attempts ::
    "(nat \<Rightarrow> browser_reply) \<Rightarrow> bool \<Rightarrow> nat \<Rightarrow> nat \<Rightarrow> nat list
       \<Rightarrow> ActionResult option \<times> log_event list" where
  "try_attempts reply known i n [] = (None, [])"
| "try_attempts reply known i n (attempt # rest) =
     (case (if known then reply attempt else Raises) of
        Returns r \<Rightarrow> (Some r, [])
      | Raises \<Rightarrow>
          (let (r, lg) = try_attempts reply known i n rest
           in (r, (if Suc attempt < n then Retrying i attempt else RetriesExhausted i) # lg)))"

definition execute_step_with_retry ::
    "(nat \<Rightarrow> nat \<Rightarrow> browser_reply) \<Rightarrow> nat \<Rightarrow> Step \<Rightarrow> py_error + ActionResult \<times> log_event list" where
  "execute_step_with_retry browser i step =
     (case attempt_count (retries step) of
        Inl e \<Rightarrow> Inl e
      | Inr n \<Rightarrow>
          (let (r, lg) = try_attempts (browser i) (action step \<in> browser_actions) i n [0..<n]
           in Inr (case r of Some x \<Rightarrow> x | None \<Rightarrow> failed_result, lg)))"

fun execute_loop ::
    "(nat \<Rightarrow> nat \<Rightarrow> browser_reply) \<Rightarrow> (ActionResult \<Rightarrow> 'rec list) \<Rightarrow> nat \<Rightarrow> Step list
       \<Rightarrow> 'rec list \<times> log_event list" where
  "execute_loop browser extract i [] = ([], [])"
| "execute_loop browser extract i (step # rest) =
     (case execute_step_with_retry browser i step of
        Inl e \<Rightarrow>
          (let (rs, lg) = execute_loop browser extract (Suc i) rest
           in (rs, Executing i # ExecutionError i # lg))
      | Inr (step_result, rlog) \<Rightarrow>
          if res_success step_result then
            (let extracted_data =
                   (if action step = str ''extract'' \<and> truthy (res_data step_result)
                    then extract step_result else []);
                 (rs, lg) = execute_loop browser extract (Suc i) rest
             in (extracted_data @ rs, Executing i # rlog @ Completed i # lg))
          else if action step \<in> {str ''goto'', str ''click''} then
            ([], Executing i # rlog @ [StepFailed i, CriticalStop i])
          else
            (let (rs, lg) = execute_loop browser extract (Suc i) rest
             in (rs, Executing i # rlog @ StepFailed i # lg)))"

text \<open>
  What \<open>execute\<close> meets outside the program: whether reading the session context raises,
  the reply of the language model, whether the browser starts, the browsing session,
  the normaliser applied to the data of an extraction step and the second normalisation
  pass (both catch their own exceptions and return a list), and whether saving the result
  raises.
\<close>

record 'rec env =
  context_fails :: bool
  llm :: llm_reply
  browser_starts :: bool
  browser :: "nat \<Rightarrow> nat \<Rightarrow> browser_reply"
  extract_data :: "ParsedInstruction \<Rightarrow> ActionResult \<Rightarrow> 'rec list"
  process_body :: "ParsedInstruction \<Rightarrow> 'rec list \<Rightarrow> 'rec list"
  save_fails :: bool

text \<open>
  The result of a task, without its timing, its copy of the log and its metadata; the
  error message is the exception that escaped.  \<open>execute e instr tid\<close> runs the instruction
  \<open>instr\<close> under the task id \<open>tid\<close> (the caller's, or the generated one).  Writing to the
  session memory never raises and does not enter the result.
\<close>

record 'rec ExecutionResult =
  task_id :: ustr
  status :: ustr
  er_instruction :: ustr
  results :: "'rec list"
  error_message :: "py_error option"

text \<open>\<open>len(v)\<close>, which the log entry after parsing takes of the action list.\<close>

fun py_len :: "pyval \<Rightarrow> py_error + nat" where
  "py_len (PList xs) = Inr (length xs)"
| "py_len (PDict kvs) = Inr (length kvs)"
| "py_len (PStr s) = Inr (length s)"
| "py_len v = Inl TypeError"

definition execute_steps ::
    "'rec env \<Rightarrow> ParsedInstruction \<Rightarrow> Step list \<Rightarrow> py_error + 'rec list \<times> log_event list" where
  "execute_steps e parsed steps =
     (if \<not> browser_starts e then Inl OtherError
      else Inr (execute_loop (browser e) (extract_data e parsed) 0 steps))"

definition process_results :: "'rec env \<Rightarrow> ParsedInstruction \<Rightarrow> 'rec list \<Rightarrow> 'rec list" where
  "process_results e parsed raw = (if raw = [] then [] else process_body e parsed raw)"

definition execute_body :: "'rec env \<Rightarrow> ustr \<Rightarrow> ustr \<Rightarrow> py_error + 'rec ExecutionResult" where
  "execute_body e instr tid =
     (if context_fails e then Inl OtherError
      else bind_err (parse (llm e) instr) (\<lambda>parsed.
           bind_err (py_len (actions parsed)) (\<lambda>actions_count.
           bind_err (execute_steps e parsed (plan parsed)) (\<lambda>(raw, lg).
             let processed = process_results e parsed raw;
                 execution_result =
                   \<lparr>task_id = tid,
                    status = (if raw \<noteq> [] then ascii ''success'' else ascii ''error''),
                    er_instruction = instr, results = processed, error_message = None\<rparr>
             in if save_fails e then Inl OtherError else Inr execution_result))))"

definition execute :: "'rec env \<Rightarrow> ustr \<Rightarrow> ustr \<Rightarrow> 'rec ExecutionResult" where
  "execute e instr tid =
     (case execute_body e instr tid of
        Inr execution_result \<Rightarrow> execution_result
      | Inl err \<Rightarrow>
          \<lparr>task_id = tid, status = ascii ''error'', er_instruction = instr, results = [],
           error_message = Some err\<rparr>)"

text \<open>
  Two environments for the examples.  In both the language model is unavailable and nothing
  else fails; every browser call succeeds.  In the first no call returns data, and nothing
  is extracted.
\<close>

definition obliging_env :: "unit env" where
  "obliging_env =
     \<lparr>context_fails = False, llm = LLMFails, browser_starts = True,
      browser = (\<lambda>i a. Returns \<lparr>res_success = True, res_data = PNone\<rparr>),
      extract_data = (\<lambda>p r. []), process_body = (\<lambda>p rs. rs), save_fails = False\<rparr>"

text \<open>
  In the second environment the call of the step at position 6 (the extraction step of the
  plan for a search: \<open>goto\<close>, \<open>fill\<close>, \<open>wait\<close>, \<open>click\<close>, \<open>wait\<close>, \<open>wait\<close>, \<open>extract\<close>) returns
  the data of one element \<open><div>Laptop</div>\<close>, as \<open>_extract_element_data\<close> of the browser
  controller builds it; the data of the other calls is not read.  For this fragment
  \<open>extract_from_playwright_data\<close> builds one record with title and description \<open>Laptop\<close>
  (the text has nothing to clean, no price and no rating; there are no attributes), and
  with no filter in the intent \<open>_extract_data_from_step_result\<close> returns its dictionary;
  for other data the environment returns no record.  The second normalisation pass returns
  a single record as it is.
\<close>

definition laptop_fragment :: pyval where
  "laptop_fragment = dict [(''text'', str ''Laptop''), (''html'', str ''Laptop''),
                           (''tag'', str ''div'')]"

definition laptop_record :: pyval where
  "laptop_record = dict
     [(''title'', str ''Laptop''), (''price'', PNone), (''url'', PNone),
      (''description'', str ''Laptop''), (''rating'', PNone), (''image_url'', PNone),
      (''raw_data'', laptop_fragment)]"

definition fruitful_env :: "pyval env" where
  "fruitful_env =
     \<lparr>context_fails = False, llm = LLMFails, browser_starts = True,
      browser = (\<lambda>i a. Returns \<lparr>res_success = True,
                                res_data = (if i = 6 then PList [laptop_fragment] else PNone)\<rparr>),
      extract_data = (\<lambda>p r. if res_data r = PList [laptop_fragment] then [laptop_record] else []),
      process_body = (\<lambda>p rs. rs), save_fails = False\<rparr>"



definition step_fails :: "(nat \<Rightarrow> nat \<Rightarrow> browser_reply) \<Rightarrow> nat \<Rightarrow> Step \<Rightarrow> bool" where
  "step_fails b i s = (\<exists>r lg. execute_step_with_retry b i s = Inr (r, lg) \<and> \<not> res_success r)"




section \<open>Session memory (session_memory.py)\<close>

text \<open>
  A \<open>datetime\<close> is a number of microseconds, offset-naive (what \<open>datetime.now()\<close> gives) or
  offset-aware (what \<open>fromisoformat\<close> gives for a string with a UTC offset, in a loaded or
  imported file); an order comparison between a naive and an aware one raises \<open>TypeError\<close>.
  \<open>timedelta(days=n)\<close> is \<open>n\<close> days of microseconds.  The counters of the session context
  are read from JSON without checks when the store is loaded, so they are Python values.
  \<open>add_memory\<close> reads the clock three times (the entry's timestamp, the session's last
  activity, the cut-off of the cleanup) and draws one UUID: the three readings and the UUID
  are arguments of the model.  Writing the store to disk changes nothing in the store and
  is left out.
\<close>

datatype datetime = Naive int | Aware int

fun micros :: "datetime \<Rightarrow> int" where
  "micros (Naive t) = t"
| "micros (Aware t) = t"

fun is_naive :: "datetime \<Rightarrow> bool" where
  "is_naive (Naive t) = True"
| "is_naive (Aware t) = False"

record 'r MemoryEntry =
  entry_id :: ustr
  instruction :: ustr
  result :: 'r
  timestamp :: datetime
  task_type :: ustr
  success :: bool
  metadata :: pyval

record 'd SessionContext =
  session_id :: ustr
  start_time :: datetime
  last_activity :: datetime
  total_tasks :: pyval
  successful_tasks :: pyval
  failed_tasks :: pyval
  current_task :: "ustr option"
  preferences :: 'd

record ('r, 'd) SessionMemory =
  memories :: "'r MemoryEntry list"
  session_context :: "'d SessionContext option"

record clock =
  entry_time :: int
  activity_time :: int
  cleanup_time :: int

definition max_memories :: nat where
  "max_memories = 100"

definition memory_ttl_days :: int where
  "memory_ttl_days = 7"

definition timedelta_days :: "int \<Rightarrow> int" where
  "timedelta_days n = n * 86400 * 1000000"

text \<open>
  \<open>v += 1\<close>: defined on numbers only (a list takes \<open>+=\<close> with an iterable, and 1 is none).
  The sum of a float is taken exactly; no statement below depends on the value of a counter.
\<close>

fun py_incr :: "pyval \<Rightarrow> py_error + pyval" where
  "py_incr (PInt n) = Inr (PInt (n + 1))"
| "py_incr (PBool b) = Inr (PInt ((if b then 1 else 0) + 1))"
| "py_incr (PFloat (Num q)) = Inr (PFloat (Num (q + 1)))"
| "py_incr (PFloat f) = Inr (PFloat f)"
| "py_incr v = Inl TypeError"

text \<open>
  The list comprehension of \<open>_cleanup_old_memories\<close>, which compares every timestamp with
  the naive cut-off.
\<close>

fun newer_than :: "int \<Rightarrow> 'r MemoryEntry list \<Rightarrow> py_error + 'r MemoryEntry list" where
  "newer_than cutoff_date [] = Inr []"
| "newer_than cutoff_date (mem # rest) =
     (case timestamp mem of
        Aware t \<Rightarrow> Inl TypeError
      | Naive t \<Rightarrow>
          (case newer_than cutoff_date rest of
             Inl e \<Rightarrow> Inl e
           | Inr kept \<Rightarrow> Inr (if t > cutoff_date then mem # kept else kept)))"

text \<open>
  \<open>_cleanup_old_memories\<close>: an exception is caught and logged, and the store stays as it
  was.  After the comprehension every timestamp is naive, so the sort compares numbers.
\<close>

definition cleanup_old_memories :: "int \<Rightarrow> ('r, 'd) SessionMemory \<Rightarrow> ('r, 'd) SessionMemory" where
  "cleanup_old_memories now mem =
     (case newer_than (now - timedelta_days memory_ttl_days) (memories mem) of
        Inl e \<Rightarrow> mem
      | Inr kept \<Rightarrow>
          if length kept > max_memories
          then mem\<lparr>memories := take max_memories (py_sorted (\<lambda>m. micros (timestamp m)) True kept)\<rparr>
          else mem\<lparr>memories := kept\<rparr>)"

text \<open>
  The update of the session counters inside \<open>add_memory\<close>.  The result is the context as the
  assignments left it and whether all of them went through; one that raises leaves its
  field and the later ones unchanged.
\<close>

definition update_counters :: "bool \<Rightarrow> int \<Rightarrow> 'd SessionContext \<Rightarrow> 'd SessionContext \<times> bool" where
  "update_counters succ now ctx =
     (case py_incr (total_tasks ctx) of
        Inl e \<Rightarrow> (ctx, False)
      | Inr t \<Rightarrow>
          (let ctx1 = ctx\<lparr>total_tasks := t\<rparr>
           in if succ
              then (case py_incr (successful_tasks ctx1) of
                      Inl e \<Rightarrow> (ctx1, False)
                    | Inr v \<Rightarrow> (ctx1\<lparr>successful_tasks := v, last_activity := Naive now\<rparr>, True))
              else (case py_incr (failed_tasks ctx1) of
                      Inl e \<Rightarrow> (ctx1, False)
                    | Inr v \<Rightarrow> (ctx1\<lparr>failed_tasks := v, last_activity := Naive now\<rparr>, True))))"

text \<open>
  \<open>add_memory\<close> returns the new id, or the empty string from its \<open>except\<close> branch, which is
  reached after the entry was appended and before the cleanup.  \<open>metadata or {}\<close> puts an
  empty dictionary in the place of a metadata that is \<open>None\<close> or empty.
\<close>

definition add_memory ::
    "ustr \<Rightarrow> clock \<Rightarrow> ustr \<Rightarrow> 'r \<Rightarrow> bool \<Rightarrow> ustr \<Rightarrow> pyval \<Rightarrow> ('r, 'd) SessionMemory
       \<Rightarrow> ('r, 'd) SessionMemory \<times> ustr" where
  "add_memory uuid clk instr res succ ttype meta mem =
     (let entry = \<lparr>entry_id = uuid, instruction = instr, result = res,
                    timestamp = Naive (entry_time clk), task_type = ttype, success = succ,
                    metadata = (if truthy meta then meta else PDict [])\<rparr>;
          mem1 = mem\<lparr>memories := memories mem @ [entry]\<rparr>
      in case session_context mem1 of
           None \<Rightarrow> (cleanup_old_memories (cleanup_time clk) mem1, uuid)
         | Some ctx \<Rightarrow>
             (case update_counters succ (activity_time clk) ctx of
                (ctx', True) \<Rightarrow>
                  (cleanup_old_memories (cleanup_time clk) (mem1\<lparr>session_context := Some ctx'\<rparr>),
                   uuid)
              | (ctx', False) \<Rightarrow> (mem1\<lparr>session_context := Some ctx'\<rparr>, [])))"

text \<open>
  A store as \<open>add_memory\<close> itself writes it: every timestamp is naive and the counters are
  numbers.
\<close>

fun numeric :: "pyval \<Rightarrow> bool" where
  "numeric (PInt n) = True"
| "numeric (PBool b) = True"
| "numeric (PFloat f) = True"
| "numeric v = False"

definition sound_store :: "('r, 'd) SessionMemory \<Rightarrow> bool" where
  "sound_store mem =
     ((\<forall>m\<in>set (memories mem). is_naive (timestamp m))
      \<and> (case session_context mem of
            None \<Rightarrow> True
          | Some ctx \<Rightarrow> numeric (total_tasks ctx) \<and> numeric (successful_tasks ctx)
                        \<and> numeric (failed_tasks ctx)))"

text \<open>
  An entry written at time 0, naive and offset-aware, a clock on the ninth day (700000
  seconds later, the time-to-live being 604800 seconds), and a session context whose
  counters are numbers.
\<close>

definition stale_entry :: "unit MemoryEntry" where
  "stale_entry = \<lparr>entry_id = ascii ''a'', instruction = ascii ''search laptops'', result = (),
                   timestamp = Naive 0, task_type = ascii ''search'', success = True,
                   metadata = PDict []\<rparr>"

definition stale_aware_entry :: "unit MemoryEntry" where
  "stale_aware_entry = stale_entry\<lparr>timestamp := Aware 0\<rparr>"

definition ninth_day :: clock where
  "ninth_day = \<lparr>entry_time = 700000000000, activity_time = 700000000001,
                 cleanup_time = 700000000002\<rparr>"

definition fresh_context :: "unit SessionContext" where
  "fresh_context = \<lparr>session_id = ascii ''s'', start_time = Naive 0, last_activity = Naive 0,
                     total_tasks = PInt 1, successful_tasks = PInt 1, failed_tasks = PInt 0,
                     current_task = None, preferences = ()\<rparr>"

section \<open>Properties of the regular expressions\<close>

lemma then_matches_mem:
  "x \<in> set (then_matches ms k) \<longleftrightarrow>
     (\<exists>m1\<in>set ms. \<exists>m2\<in>set (k (snd (snd m1))). x = extend_match (fst m1) (fst (snd m1)) m2)"
  by (induction ms k rule: then_matches.induct) auto

lemma nonempty_matches_subset: "x \<in> set (nonempty_matches ms) \<Longrightarrow> x \<in> set ms"
  by (induction ms rule: nonempty_matches.induct) (auto split: if_splits)

lemma extend_consumed: "fst (extend_match c g m) = c @ fst m"
  by (cases m) simp

lemma extend_group:
  "fst (snd (extend_match c g m)) = (case fst (snd m) of None \<Rightarrow> g | Some x \<Rightarrow> Some x)"
  by (cases m) simp

lemma star_matches_consumed:
  assumes step: "\<And>s x. x \<in> set (m s) \<Longrightarrow> \<forall>c\<in>set (fst x). Q c"
  shows "x \<in> set (star_matches fuel m s) \<Longrightarrow> \<forall>c\<in>set (fst x). Q c"
proof (induction fuel arbitrary: s x)
  case Nil
  then show ?case by simp
next
  case (Cons a fuel)
  from Cons.prems consider "x = ([], None, s)"
    | m1 m2 where "m1 \<in> set (m s)" "m2 \<in> set (star_matches fuel m (snd (snd m1)))"
        "x = extend_match (fst m1) (fst (snd m1)) m2"
    by (auto simp: then_matches_mem dest: nonempty_matches_subset)
  then show ?case
  proof cases
    case 1
    then show ?thesis by simp
  next
    case 2
    from step [OF 2(1)] Cons.IH [OF 2(2)] show ?thesis
      unfolding 2(3) extend_consumed by auto
  qed
qed

lemma matches_sym_all:
  "sym_all Q p \<Longrightarrow> x \<in> set (matches p s) \<Longrightarrow> \<forall>c\<in>set (fst x). Q c"
proof (induction p arbitrary: s x)
  case Eps
  then show ?case by simp
next
  case (Sym P)
  then show ?case by (cases s) (auto split: if_splits)
next
  case (Seq a b)
  from Seq.prems(2) obtain m1 m2 where
    m1: "m1 \<in> set (matches a s)" and m2: "m2 \<in> set (matches b (snd (snd m1)))"
    and x: "x = extend_match (fst m1) (fst (snd m1)) m2"
    by (auto simp: then_matches_mem)
  from Seq.prems(1) have sa: "sym_all Q a" and sb: "sym_all Q b" by simp_all
  from Seq.IH(1) [OF sa m1] Seq.IH(2) [OF sb m2] show ?case
    unfolding x extend_consumed by auto
next
  case (Opt p)
  from Opt.prems(2) have "x \<in> set (matches p s) \<or> x = ([], None, s)" by auto
  with Opt.IH [of x s] Opt.prems(1) show ?case by auto
next
  case (Star p)
  from Star.prems(1) have sp: "sym_all Q p" by simp
  have step: "\<And>s x. x \<in> set (matches p s) \<Longrightarrow> \<forall>c\<in>set (fst x). Q c"
    by (rule Star.IH [OF sp])
  from Star.prems(2) have "x \<in> set (star_matches s (matches p) s)" by simp
  from star_matches_consumed [where m = "matches p" and Q = Q, OF step this]
  show ?case .
next
  case (Grp p)
  from Grp.prems(2) obtain y where y: "y \<in> set (matches p s)" and x: "x = set_group y" by auto
  from Grp.IH [OF _ y] Grp.prems(1) have "\<forall>c\<in>set (fst y). Q c" by simp
  then show ?case unfolding x by (cases y) simp
qed

lemma star_matches_group:
  assumes step: "\<And>s x t. x \<in> set (m s) \<Longrightarrow> fst (snd x) = Some t \<Longrightarrow> \<forall>c\<in>set t. Q c"
  shows "x \<in> set (star_matches fuel m s) \<Longrightarrow> fst (snd x) = Some t \<Longrightarrow> \<forall>c\<in>set t. Q c"
proof (induction fuel arbitrary: s x t)
  case Nil
  then show ?case by simp
next
  case (Cons a fuel)
  from Cons.prems(1) consider "x = ([], None, s)"
    | m1 m2 where "m1 \<in> set (m s)" "m2 \<in> set (star_matches fuel m (snd (snd m1)))"
        "x = extend_match (fst m1) (fst (snd m1)) m2"
    by (auto simp: then_matches_mem dest: nonempty_matches_subset)
  then show ?case
  proof cases
    case 1
    with Cons.prems(2) show ?thesis by simp
  next
    case 2
    show ?thesis
    proof (cases "fst (snd m2)")
      case None
      with Cons.prems(2) 2(3) have "fst (snd m1) = Some t" by (simp add: extend_group)
      from step [OF 2(1) this] show ?thesis .
    next
      case (Some u)
      with Cons.prems(2) 2(3) have "fst (snd m2) = Some t" by (simp add: extend_group)
      from Cons.IH [OF 2(2) this] show ?thesis .
    qed
  qed
qed

lemma matches_grp_all:
  "grp_all Q p \<Longrightarrow> x \<in> set (matches p s) \<Longrightarrow> fst (snd x) = Some t \<Longrightarrow> \<forall>c\<in>set t. Q c"
proof (induction p arbitrary: s x t)
  case Eps
  then show ?case by simp
next
  case (Sym P)
  then show ?case by (cases s) (auto split: if_splits)
next
  case (Seq a b)
  from Seq.prems(2) obtain m1 m2 where
    m1: "m1 \<in> set (matches a s)" and m2: "m2 \<in> set (matches b (snd (snd m1)))"
    and x: "x = extend_match (fst m1) (fst (snd m1)) m2"
    by (auto simp: then_matches_mem)
  from Seq.prems(1) have ga: "grp_all Q a" and gb: "grp_all Q b" by simp_all
  show ?case
  proof (cases "fst (snd m2)")
    case None
    with Seq.prems(3) x have "fst (snd m1) = Some t" by (simp add: extend_group)
    from Seq.IH(1) [OF ga m1 this] show ?thesis .
  next
    case (Some u)
    with Seq.prems(3) x have "fst (snd m2) = Some t" by (simp add: extend_group)
    from Seq.IH(2) [OF gb m2 this] show ?thesis .
  qed
next
  case (Opt p)
  from Opt.prems(2) have "x \<in> set (matches p s) \<or> x = ([], None, s)" by auto
  with Opt.IH [of x s t] Opt.prems(1,3) show ?case by auto
next
  case (Star p)
  from Star.prems(1) have gp: "grp_all Q p" by simp
  have step: "\<And>s x t. x \<in> set (matches p s) \<Longrightarrow> fst (snd x) = Some t \<Longrightarrow> \<forall>c\<in>set t. Q c"
    by (rule Star.IH [OF gp])
  from Star.prems(2) have "x \<in> set (star_matches s (matches p) s)" by simp
  from star_matches_group [where m = "matches p" and Q = Q, OF step this Star.prems(3)]
  show ?case .
next
  case (Grp p)
  from Grp.prems(2) obtain y where y: "y \<in> set (matches p s)" and x: "x = set_group y" by auto
  from Grp.prems(1) have "sym_all Q p" by simp
  from matches_sym_all [OF this y] have "\<forall>c\<in>set (fst y). Q c" .
  moreover from Grp.prems(3) x have "t = fst y" by (cases y) simp
  ultimately show ?case by simp
qed

lemma matches_grp_sure:
  "grp_sure p \<Longrightarrow> x \<in> set (matches p s) \<Longrightarrow> fst (snd x) \<noteq> None"
proof (induction p arbitrary: s x)
  case (Seq a b)
  from Seq.prems(2) obtain m1 m2 where
    m1: "m1 \<in> set (matches a s)" and m2: "m2 \<in> set (matches b (snd (snd m1)))"
    and x: "x = extend_match (fst m1) (fst (snd m1)) m2"
    by (auto simp: then_matches_mem)
  from Seq.prems(1) consider "grp_sure a" | "grp_sure b" by auto
  then show ?case
  proof cases
    case 1
    from Seq.IH(1) [OF 1 m1] show ?thesis unfolding x extend_group by (cases "fst (snd m2)") auto
  next
    case 2
    from Seq.IH(2) [OF 2 m2] show ?thesis unfolding x extend_group by (cases "fst (snd m2)") auto
  qed
next
  case (Grp p)
  from Grp.prems(2) obtain y where "x = set_group y" by auto
  then show ?case by (cases y) simp
qed simp_all

lemma re_search_mem:
  "re_search p s = Some m \<Longrightarrow> \<exists>t. m \<in> set (matches p t)"
proof (induction p s rule: re_search.induct)
  case (1 p)
  then have "m \<in> set (matches p [])" by (auto split: list.splits)
  then show ?case by blast
next
  case (2 p c t)
  show ?case
  proof (cases "matches p (c # t)")
    case Nil
    with 2 show ?thesis by simp
  next
    case (Cons a list)
    with 2 have "m \<in> set (matches p (c # t))" by simp
    then show ?thesis by blast
  qed
qed

section \<open>Properties of the content extractor\<close>

subsection \<open>Price extraction\<close>

lemma number_rx_chars: "sym_all token_char number_rx"
  by (simp add: number_rx_def plus_def digit_def chr_def twice_def thrice_def token_char_def)

lemma price_patterns_grp:
  "p \<in> set price_patterns \<Longrightarrow> grp_all token_char p \<and> grp_sure p"
  using number_rx_chars
  by (auto simp: price_patterns_def spaces_def lit_i_def chr_i_def chr_def)

lemma contains_set: "contains s sub \<Longrightarrow> set sub \<subseteq> set s"
proof (induction s)
  case Nil
  then show ?case by simp
next
  case (Cons c s)
  from Cons.prems have "startswith (c # s) sub \<or> contains s sub" by simp
  then show ?case
  proof
    assume "startswith (c # s) sub"
    then have "sub = take (length sub) (c # s)" by (simp add: startswith_def)
    then have "set sub \<subseteq> set (c # s)" by (metis set_take_subset)
    then show ?thesis .
  next
    assume "contains s sub"
    with Cons.IH show ?thesis by auto
  qed
qed

lemma token_no_symbol:
  assumes "\<forall>c\<in>set tok. token_char c"
  shows "\<not> list_ex (\<lambda>symbol. contains tok symbol) currency_symbols"
proof -
  have "\<not> token_char rupee" "\<not> token_char 82" "\<not> token_char 73"
    by (simp_all add: token_char_def is_digit_def rupee_def)
  with assms have "rupee \<notin> set tok" "82 \<notin> set tok" "73 \<notin> set tok" by auto
  moreover have "rupee \<in> set [rupee]" "82 \<in> set (ascii ''Rs'')" "73 \<in> set (ascii ''INR'')"
    by (simp_all add: ascii_def)
  ultimately have "\<not> contains tok [rupee]" "\<not> contains tok (ascii ''Rs'')"
    "\<not> contains tok (ascii ''INR'')"
    using contains_set by blast+
  then show ?thesis by (simp add: currency_symbols_def)
qed

lemma first_price_sound:
  assumes "\<forall>p\<in>set ps. grp_all token_char p \<and> grp_sure p"
  shows "(\<forall>e. first_price ps text \<noteq> Inl e) \<and>
         (first_price ps text = Inr (Some v) \<longrightarrow>
            (\<exists>i tok m. i < length ps \<and> (\<forall>j<i. re_search (ps ! j) text = None)
               \<and> re_search (ps ! i) text = Some m \<and> group1 m = Some tok
               \<and> (\<forall>c\<in>set tok. token_char c) \<and> v = rupee # tok))"
  using assms
proof (induction ps)
  case Nil
  then show ?case by simp
next
  case (Cons p ps)
  show ?case
  proof (cases "re_search p text")
    case None
    from Cons have IH: "(\<forall>e. first_price ps text \<noteq> Inl e) \<and>
         (first_price ps text = Inr (Some v) \<longrightarrow>
            (\<exists>i tok m. i < length ps \<and> (\<forall>j<i. re_search (ps ! j) text = None)
               \<and> re_search (ps ! i) text = Some m \<and> group1 m = Some tok
               \<and> (\<forall>c\<in>set tok. token_char c) \<and> v = rupee # tok))" by simp
    have "first_price (p # ps) text = first_price ps text" using None by simp
    moreover
    { assume "first_price ps text = Inr (Some v)"
      with IH obtain i tok m where i: "i < length ps" "\<forall>j<i. re_search (ps ! j) text = None"
        "re_search (ps ! i) text = Some m" "group1 m = Some tok"
        "\<forall>c\<in>set tok. token_char c" "v = rupee # tok" by blast
      have "\<forall>j<Suc i. re_search ((p # ps) ! j) text = None"
        using None i(2) by (auto simp: less_Suc_eq_0_disj)
      with i have "\<exists>i tok m. i < length (p # ps) \<and> (\<forall>j<i. re_search ((p # ps) ! j) text = None)
               \<and> re_search ((p # ps) ! i) text = Some m \<and> group1 m = Some tok
               \<and> (\<forall>c\<in>set tok. token_char c) \<and> v = rupee # tok"
        by (intro exI [of _ "Suc i"] exI [of _ tok] exI [of _ m]) simp }
    ultimately show ?thesis using IH by simp
  next
    case (Some m)
    from re_search_mem [OF Some] obtain t where mt: "m \<in> set (matches p t)" by blast
    from Cons.prems have gp: "grp_all token_char p" "grp_sure p" by simp_all
    from matches_grp_sure [OF gp(2) mt] obtain tok where tok: "group1 m = Some tok"
      by (auto simp: group1_def)
    from matches_grp_all [OF gp(1) mt] tok have chars: "\<forall>c\<in>set tok. token_char c"
      by (simp add: group1_def)
    from token_no_symbol [OF chars] Some tok
    have val: "first_price (p # ps) text = Inr (Some (rupee # tok))" by simp
    have "\<exists>i tok' m. i < length (p # ps) \<and> (\<forall>j<i. re_search ((p # ps) ! j) text = None)
               \<and> re_search ((p # ps) ! i) text = Some m \<and> group1 m = Some tok'
               \<and> (\<forall>c\<in>set tok'. token_char c) \<and> rupee # tok = rupee # tok'"
      using Some tok chars by (intro exI [of _ 0] exI [of _ tok] exI [of _ m]) simp
    with val show ?thesis by auto
  qed
qed

text \<open>
  Claim C10.  \<open>_extract_price\<close> never raises, and whenever it returns a value, that value
  is the rupee sign followed by the numeric token captured by the first pattern (in list
  order) that matches the text.  The token holds digits, commas and full stops only, so none
  of the markers rupee sign, \<open>Rs\<close>, \<open>INR\<close> occurs in it: the test of the source always
  adds the sign, and the marker written in the text is never kept.
\<close>

theorem extract_price_rupee_prefix:
  "(\<forall>e. extract_price text \<noteq> Inl e) \<and>
   (extract_price text = Inr (Some v) \<longrightarrow>
      (\<exists>i tok m. i < length price_patterns
         \<and> (\<forall>j<i. re_search (price_patterns ! j) text = None)
         \<and> re_search (price_patterns ! i) text = Some m \<and> group1 m = Some tok
         \<and> (\<forall>c\<in>set tok. token_char c)
         \<and> \<not> list_ex (\<lambda>symbol. contains tok symbol) currency_symbols
         \<and> v = rupee # tok))"
proof (cases "text = []")
  case True
  then show ?thesis by (simp add: extract_price_def)
next
  case False
  have "\<forall>p\<in>set price_patterns. grp_all token_char p \<and> grp_sure p"
    using price_patterns_grp by blast
  from first_price_sound [OF this, of "text" v] False token_no_symbol show ?thesis
    unfolding extract_price_def by (simp del: split_paired_Ex) blast
qed

theorem extract_price_rupee_prefix_witness:
  "extract_price (ascii ''Rs. 45,000 only'') = Inr (Some (rupee # ascii ''45,000''))
   \<and> (\<exists>i tok m. i < length price_patterns
         \<and> (\<forall>j<i. re_search (price_patterns ! j) (ascii ''Rs. 45,000 only'') = None)
         \<and> re_search (price_patterns ! i) (ascii ''Rs. 45,000 only'') = Some m
         \<and> group1 m = Some tok
         \<and> (\<forall>c\<in>set tok. token_char c)
         \<and> \<not> list_ex (\<lambda>symbol. contains tok symbol) currency_symbols
         \<and> rupee # ascii ''45,000'' = rupee # tok)"
proof -
  have e: "extract_price (ascii ''Rs. 45,000 only'') = Inr (Some (rupee # ascii ''45,000''))"
    by (simp add: twice_def thrice_def number_rx_def price_patterns_def plus_def digit_def
        spaces_def chr_def chr_i_def lit_i_def is_digit_def is_space_def lower_cp_def ascii_def
        rupee_def group1_def extract_price_def currency_symbols_def startswith_def)
  from e extract_price_rupee_prefix [of "ascii ''Rs. 45,000 only''" "rupee # ascii ''45,000''"]
  show ?thesis by blast
qed

subsection \<open>Price filter\<close>

lemma filter_loop_Cons:
  "filter_loop mx mn (x # xs) =
     (if keeps mx mn x then x # filter_loop mx mn xs else filter_loop mx mn xs)"
  by (simp add: keeps_def parsed_price_def within_bounds_def split: option.splits sum.splits)

lemma filter_loop_eq: "filter_loop mx mn xs = filter (keeps mx mn) xs"
  by (induction xs) (simp_all add: filter_loop_Cons del: filter_loop.simps(2))

lemma filter_loop_mono:
  assumes "\<And>v. within_bounds mx2 mn v \<Longrightarrow> within_bounds mx1 mn v"
  shows "length (filter_loop mx2 mn xs) \<le> length (filter_loop mx1 mn xs)"
proof -
  have "\<And>x. keeps mx2 mn x \<Longrightarrow> keeps mx1 mn x"
    using assms by (auto simp: keeps_def split: option.splits)
  then show ?thesis
    unfolding filter_loop_eq by (induction xs) auto
qed

text \<open>
  Claim C6, as the code has it.  A bound of \<open>0\<close> is no bound (the source tests the bound's
  truth value).  For max-price bounds \<open>m2 \<le> m1\<close> with \<open>m2\<close> not zero, filtering with \<open>m2\<close>
  yields at most as many records as filtering with \<open>m1\<close>, whatever the min-price bound is;
  and whenever a bound is active, every record that survives has a price that parses:
  records with an absent, empty or unparsable price are dropped.
\<close>

theorem filter_by_price_monotone:
  "(m2 \<noteq> 0 \<and> m2 \<le> m1 \<longrightarrow>
      length (filter_by_price data (Some m2) mn) \<le> length (filter_by_price data (Some m1) mn))
   \<and> ((bound_active mx \<or> bound_active mn) \<and> item \<in> set (filter_by_price data mx mn)
        \<longrightarrow> parsed_price item \<noteq> None)"
proof (intro conjI impI)
  assume a: "m2 \<noteq> 0 \<and> m2 \<le> m1"
  have mono: "\<And>v. within_bounds (Some m2) mn v \<Longrightarrow> within_bounds (Some m1) mn v"
    using a by (auto simp: within_bounds_def above_def)
  have le_all: "length (filter_loop (Some m2) mn data) \<le> length data"
    by (simp add: filter_loop_eq)
  from a have act: "bound_active (Some m2)" by (simp add: bound_active_def)
  show "length (filter_by_price data (Some m2) mn) \<le> length (filter_by_price data (Some m1) mn)"
    using filter_loop_mono [of "Some m2" mn "Some m1" data, OF mono] le_all act
    by (simp add: filter_by_price_def)
next
  assume "(bound_active mx \<or> bound_active mn) \<and> item \<in> set (filter_by_price data mx mn)"
  then have "item \<in> set (filter_loop mx mn data)" by (auto simp: filter_by_price_def)
  then have "keeps mx mn item" by (simp add: filter_loop_eq)
  then show "parsed_price item \<noteq> None" by (cases "parsed_price item") (simp_all add: keeps_def)
qed

lemmas regex_eval = twice_def thrice_def number_rx_def plus_def digit_def spaces_def
  chr_def chr_i_def lit_i_def is_digit_def is_space_def lower_cp_def ascii_def rupee_def group1_def
  startswith_def

lemmas price_eval = number_token_def remove_commas_def digits_val_def py_float_def priced_def

theorem filter_by_price_zero_bound_counterexample:
  "(0::rat) \<le> 10 \<and>
   \<not> length (filter_by_price [priced (Some (rupee # ascii ''100''))] (Some 0) None)
       \<le> length (filter_by_price [priced (Some (rupee # ascii ''100''))] (Some 10) None)"
  by (simp add: regex_eval price_eval bound_active_def above_def below_def filter_by_price_def)

theorem filter_by_price_monotone_witness:
  "length (filter_by_price [priced (Some (rupee # ascii ''100'')), priced (Some (ascii ''Rs 30'')), priced None]
             (Some 50) None)
     \<le> length (filter_by_price [priced (Some (rupee # ascii ''100'')), priced (Some (ascii ''Rs 30'')), priced None]
             (Some 100) None)
   \<and> parsed_price (priced (Some (ascii ''Rs 30''))) \<noteq> None"
proof -
  let ?d = "[priced (Some (rupee # ascii ''100'')), priced (Some (ascii ''Rs 30'')), priced None]"
  have h1: "(50::rat) \<noteq> 0 \<and> (50::rat) \<le> 100" by simp
  have h2: "(bound_active (Some 50) \<or> bound_active None)
            \<and> priced (Some (ascii ''Rs 30'')) \<in> set (filter_by_price ?d (Some 50) None)"
    by (simp add: regex_eval price_eval bound_active_def above_def below_def filter_by_price_def)
  from h1 h2 filter_by_price_monotone [of 50 100 ?d None "Some 50" "priced (Some (ascii ''Rs 30''))"]
  show ?thesis by blast
qed

subsection \<open>Sorting by price\<close>

text \<open>
  Claim C7, evaluated on the code.  With the default \<open>reverse=False\<close> a record without a
  price gets the key \<open>0.0\<close>, not infinity, and is sorted before the priced record; with
  \<open>reverse=True\<close> it gets infinity and, the order being descending, comes first again.  In
  neither mode does the record without a price end up last.
\<close>

theorem sort_by_price_missing_first:
  "get_price_value False (priced None) = Fin 0
   \<and> sort_by_price [priced (Some (rupee # ascii ''100'')), priced None] False
       = [priced None, priced (Some (rupee # ascii ''100''))]
   \<and> get_price_value True (priced None) = PosInf
   \<and> sort_by_price [priced (Some (rupee # ascii ''100'')), priced None] True
       = [priced None, priced (Some (rupee # ascii ''100''))]"
  by (simp add: regex_eval price_eval sort_by_price_def py_sorted_def get_price_value_def)

subsection \<open>Deduplication\<close>

lemma dedup_loop_idem:
  "dedup_loop rt kf seen (dedup_loop rt kf seen xs) = dedup_loop rt kf seen xs"
  by (induction xs arbitrary: seen) (simp_all add: Let_def)

text \<open>
  Claim C5.  For every list of records and every choice of key fields (also none, which
  selects the default \<open>title\<close> and \<open>url\<close>), deduplicating an already deduplicated list gives
  the same list.
\<close>

theorem deduplicate_idempotent:
  "deduplicate raw_text (deduplicate raw_text data key_fields) key_fields
     = deduplicate raw_text data key_fields"
  unfolding deduplicate_def by (rule dedup_loop_idem)

subsection \<open>URL normalisation\<close>

lemma startswith_Cons:
  "startswith (c # s) (d # p) = (c = d \<and> startswith s p)"
  by (simp add: startswith_def)

lemma startswith_Nil [simp]: "startswith s []"
  by (simp add: startswith_def)

lemma startswith_empty [simp]: "startswith [] (d # p) = False"
  by (simp add: startswith_def)

text \<open>
  Claim C9.  \<open>_normalize_url\<close> takes the URL alone, so no host of an originating page can
  enter the result.  A root-relative URL (one slash, then anything but a slash) is
  resolved against the fixed host \<open>https://example.com\<close>; a protocol-relative URL (two
  slashes) gets \<open>https:\<close> in front; every other non-empty URL that does not already start
  with \<open>http://\<close> or \<open>https://\<close> gets \<open>https://\<close> in front.
\<close>

theorem normalize_url_cases:
  "(startswith u (ascii ''/'') \<and> \<not> startswith u (ascii ''//'')
      \<longrightarrow> normalize_url u = ascii ''https://example.com'' @ u)
   \<and> (startswith u (ascii ''//'') \<longrightarrow> normalize_url u = ascii ''https:'' @ u)
   \<and> (u \<noteq> [] \<and> \<not> startswith u (ascii ''/'')
        \<and> \<not> startswith u (ascii ''http://'') \<and> \<not> startswith u (ascii ''https://'')
      \<longrightarrow> normalize_url u = ascii ''https://'' @ u)"
proof (cases u)
  case Nil
  then show ?thesis by (simp add: ascii_def)
next
  case (Cons c s)
  show ?thesis
  proof (cases "c = 47")
    case True
    with Cons show ?thesis
      by (cases s) (auto simp: normalize_url_def ascii_def startswith_Cons)
  next
    case False
    with Cons show ?thesis
      by (auto simp: normalize_url_def ascii_def startswith_Cons)
  qed
qed

theorem normalize_url_cases_witness:
  "normalize_url (ascii ''/product/123'') = ascii ''https://example.com/product/123''
   \<and> normalize_url (ascii ''//cdn.shop.in/a.png'') = ascii ''https://cdn.shop.in/a.png''
   \<and> normalize_url (ascii ''shop.in/x'') = ascii ''https://shop.in/x''"
proof -
  have a: "startswith (ascii ''/product/123'') (ascii ''/'')
           \<and> \<not> startswith (ascii ''/product/123'') (ascii ''//'')"
    by (simp add: ascii_def startswith_def)
  have b: "startswith (ascii ''//cdn.shop.in/a.png'') (ascii ''//'')"
    by (simp add: ascii_def startswith_def)
  have c: "ascii ''shop.in/x'' \<noteq> [] \<and> \<not> startswith (ascii ''shop.in/x'') (ascii ''/'')
           \<and> \<not> startswith (ascii ''shop.in/x'') (ascii ''http://'')
           \<and> \<not> startswith (ascii ''shop.in/x'') (ascii ''https://'')"
    by (simp add: ascii_def startswith_def)
  from a b c
    normalize_url_cases [of "ascii ''/product/123''"]
    normalize_url_cases [of "ascii ''//cdn.shop.in/a.png''"]
    normalize_url_cases [of "ascii ''shop.in/x''"]
  show ?thesis by (simp add: ascii_def)
qed

section \<open>Properties of the intent parser\<close>

lemma truthy_str [simp]: "truthy (str (c # cs))"
  by (simp add: str_def ascii_def)

lemma hashable_str [simp]: "hashable (str s)"
  by (simp add: str_def)

lemma str_eq_iff [simp]: "(str a = str b) = (a = b)"
proof
  assume "str a = str b"
  then have "map (of_char :: char \<Rightarrow> nat) a = map of_char b" by (simp add: str_def ascii_def)
  moreover have "inj (of_char :: char \<Rightarrow> nat)" by (rule injI) simp
  ultimately show "a = b" by (simp add: inj_map_eq_map)
qed simp




lemma default_actions_task:
  "task p = task q \<Longrightarrow> (get_default_actions p = PList []) = (get_default_actions q = PList [])"
  by (simp add: get_default_actions_def)







section \<open>Properties of the step planner\<close>

lemma bind_err_Inr:
  "bind_err x f = Inr y \<longleftrightarrow> (\<exists>v. x = Inr v \<and> f v = Inr y)"
  by (cases x) (simp_all add: bind_err_def)

lemma py_max_bound:
  assumes "py_max v k = Inr r" "2 \<le> k"
  shows "at_least r k \<or> r = PFloat NaN"
proof (cases v)
  case (PFloat f)
  with assms show ?thesis by (cases f) (auto split: if_splits)
qed (use assms in \<open>auto split: if_splits\<close>)

lemma wait_step_hardened: "hardened wait_step"
  by (simp add: hardened_def wait_step_def new_step_def)

lemma harden_step_sound:
  assumes "harden_step s = Inr out"
  shows "out \<noteq> [] \<and> (\<forall>x\<in>set out. hardened x)"
proof -
  from assms obtain s1 s2 where
    s1: "(if action s \<in> {str ''click'', str ''fill'', str ''extract''}
          then bind_err (py_max (retries s) 3) (\<lambda>r. Inr (s\<lparr>retries := r\<rparr>))
          else Inr s) = Inr s1"
    and s2: "(if action s1 = str ''goto''
              then bind_err (py_max (timeout s1) 15) (\<lambda>t. Inr (s1\<lparr>timeout := t\<rparr>))
              else Inr s1) = Inr s2"
    and out: "out = (if action s2 \<in> {str ''click'', str ''fill''} then [s2, wait_step] else [s2])"
    unfolding harden_step_def bind_err_Inr by auto
  have a1: "action s1 = action s"
    using s1 by (auto simp: bind_err_Inr split: if_splits)
  have r1: "action s \<in> {str ''click'', str ''fill'', str ''extract''}
      \<longrightarrow> at_least (retries s1) 3 \<or> retries s1 = PFloat NaN"
    using s1 py_max_bound [of "retries s" 3] by (auto simp: bind_err_Inr split: if_splits)
  have a2: "action s2 = action s" "retries s2 = retries s1"
    using s2 a1 by (auto simp: bind_err_Inr split: if_splits)
  have t2: "action s = str ''goto'' \<longrightarrow> at_least (timeout s2) 15 \<or> timeout s2 = PFloat NaN"
    using s2 a1 py_max_bound [of "timeout s1" 15] by (auto simp: bind_err_Inr split: if_splits)
  from a2 r1 t2 have "hardened s2" by (simp add: hardened_def)
  with out wait_step_hardened show ?thesis by auto
qed

lemma add_error_handling_sound:
  "add_error_handling steps = Inr out \<Longrightarrow>
     (steps \<noteq> [] \<longrightarrow> out \<noteq> []) \<and> (\<forall>x\<in>set out. hardened x)"
proof (induction steps arbitrary: out)
  case Nil
  then show ?case by simp
next
  case (Cons s rest)
  from Cons.prems obtain o1 o2 where o1: "harden_step s = Inr o1"
    and o2: "add_error_handling rest = Inr o2" and out: "out = o1 @ o2"
    by (auto simp: bind_err_Inr)
  from harden_step_sound [OF o1] Cons.IH [OF o2] out show ?case by auto
qed

lemma enhance_steps_length:
  "enhance_steps i steps p = Inr out \<Longrightarrow> length out = length steps"
proof (induction steps arbitrary: i out)
  case Nil
  then show ?case by simp
next
  case (Cons s rest)
  from Cons.prems obtain s' rest' where "enhance_steps (Suc i) rest p = Inr rest'"
    and "out = s' # rest'"
    by (auto simp: bind_err_Inr)
  with Cons.IH [of "Suc i" rest'] show ?case by simp
qed

lemma convert_actions_to_steps_length:
  "convert_actions_to_steps xs = Inr out \<Longrightarrow> length out = length xs"
proof (induction xs arbitrary: out)
  case Nil
  then show ?case by simp
next
  case (Cons a rest)
  from Cons.prems obtain rest' where "convert_actions_to_steps rest = Inr rest'"
    and "length out = Suc (length rest')"
    by (cases a) (auto simp: bind_err_Inr)
  with Cons.IH [of rest'] show ?case by simp
qed

lemma py_iter_nonempty:
  "truthy v \<Longrightarrow> py_iter v = Inr xs \<Longrightarrow> xs \<noteq> []"
  by (cases v) auto

lemma step_templates_nonempty: "step_templates t \<noteq> []"
  by (simp add: step_templates_def)

lemma hardened_new_step:
  "hardened (new_step a sel v u (PInt t) m (PInt 3) md) \<longleftrightarrow> (a = str ''goto'' \<longrightarrow> 15 \<le> t)"
  by (auto simp: hardened_def new_step_def)

lemma create_fallback_steps_sound:
  "create_fallback_steps p \<noteq> [] \<and> (\<forall>x\<in>set (create_fallback_steps p). hardened x)"
  by (auto simp: create_fallback_steps_def hardened_new_step)

lemma plan_body_sound:
  assumes "plan_body p = Inr out"
  shows "out \<noteq> [] \<and> (\<forall>x\<in>set out. hardened x)"
proof -
  from assms obtain steps0 steps1 where
    s0: "(if truthy (actions p)
          then bind_err (py_iter (actions p)) convert_actions_to_steps
          else generate_steps_from_template p) = Inr steps0"
    and s1: "enhance_steps 0 steps0 p = Inr steps1"
    and out: "add_error_handling steps1 = Inr out"
    unfolding plan_body_def bind_err_Inr by auto
  have "steps0 \<noteq> []"
  proof (cases "truthy (actions p)")
    case True
    with s0 obtain xs where xs: "py_iter (actions p) = Inr xs"
      and c: "convert_actions_to_steps xs = Inr steps0"
      by (auto simp: bind_err_Inr)
    from py_iter_nonempty [OF True xs] convert_actions_to_steps_length [OF c]
    show ?thesis by auto
  next
    case False
    with s0 step_templates_nonempty [of "task p"] show ?thesis
      by (auto simp: generate_steps_from_template_def split: if_splits)
  qed
  with enhance_steps_length [OF s1] have "steps1 \<noteq> []" by auto
  with add_error_handling_sound [OF out] show ?thesis by simp
qed

text \<open>
  Claim C3, as the code has it.  For every intent, whatever its fields hold, \<open>plan\<close> returns
  a non-empty list of steps; in it every step whose action is \<open>click\<close>, \<open>fill\<close> or \<open>extract\<close>
  has a retry budget that is at least 3 or is \<open>NaN\<close>, and every step whose action is \<open>goto\<close>
  has a timeout that is at least 15 or is \<open>NaN\<close>.  This covers the plan built from the
  intent's actions, the plan built from a template, and the fallback plan returned when
  planning raises.
\<close>

theorem plan_nonempty_hardened:
  "plan p \<noteq> []
   \<and> (\<forall>s\<in>set (plan p).
         (action s \<in> {str ''click'', str ''fill'', str ''extract''}
            \<longrightarrow> at_least (retries s) 3 \<or> retries s = PFloat NaN)
         \<and> (action s = str ''goto'' \<longrightarrow> at_least (timeout s) 15 \<or> timeout s = PFloat NaN))"
proof (cases "plan_body p")
  case (Inl e)
  then have "plan p = create_fallback_steps p" by (simp add: plan_def)
  with create_fallback_steps_sound [of p] show ?thesis by (simp add: hardened_def)
next
  case (Inr out)
  then have "plan p = out" by (simp add: plan_def)
  with plan_body_sound [OF Inr] show ?thesis by (simp add: hardened_def)
qed

theorem plan_nonempty_hardened_witness:
  "map (\<lambda>s. (action s, timeout s, retries s)) (plan hasty_intent)
     = [(str ''goto'', PInt 15, PInt 3), (str ''click'', PInt 10, PInt 3),
        (str ''wait'', PInt 2, PInt 3)]"
proof -
  have e: "map (\<lambda>s. (action s, timeout s, retries s)) (plan hasty_intent)
     = [(str ''goto'', PInt 15, PInt 3), (str ''click'', PInt 10, PInt 3),
        (str ''wait'', PInt 2, PInt 3)]"
    by (simp add: plan_def plan_body_def hasty_intent_def bind_err_def dict_def get_or_def
        new_step_def enhance_step_def get_selector_def fallback_selectors_def harden_step_def
        wait_step_def str_def ascii_def)
  from e plan_nonempty_hardened [of hasty_intent] show ?thesis by simp
qed

theorem plan_nan_counterexample:
  "map_sum id (\<lambda>p. map (\<lambda>s. (action s, timeout s, retries s)) (plan p))
       (parse nan_reply (ascii ''buy''))
     = Inr [(str ''goto'', PFloat NaN, PInt 3), (str ''click'', PInt 10, PFloat NaN),
            (str ''wait'', PInt 2, PInt 3)]
   \<and> \<not> at_least (PFloat NaN) 15 \<and> \<not> at_least (PFloat NaN) 3"
  by (simp add: nan_reply_def parse_def parse_body_def validate_and_enhance_def ensure_task_def
      ensure_query_def ensure_selectors_def ensure_actions_def ensure_target_url_def
      get_default_url_def get_default_selectors_def search_selectors_def
      plan_def plan_body_def bind_err_def dict_def get_or_def
      new_step_def enhance_step_def get_selector_def fallback_selectors_def harden_step_def
      wait_step_def str_def ascii_def)

section \<open>Properties of the execution engine\<close>

subsection \<open>Step failures\<close>










lemma try_attempts_all_raise:
  "(\<forall>a\<in>set as. reply a = Raises) \<Longrightarrow> fst (try_attempts reply known i n as) = None"
  by (induction as) (auto simp: split_def)

text \<open>A step all of whose attempts raise ends with a failed result: it fails.\<close>

lemma retries_exhausted_fails:
  assumes "attempt_count (retries s) = Inr n" "\<forall>a<n. b i a = Raises"
  shows "step_fails b i s"
proof -
  have "fst (try_attempts (b i) (action s \<in> browser_actions) i n [0..<n]) = None"
    by (rule try_attempts_all_raise) (use assms(2) in auto)
  with assms(1) show ?thesis
    by (auto simp: step_fails_def execute_step_with_retry_def split_def failed_result_def)
qed





subsection \<open>Status of a task\<close>

lemma process_results_nonempty:
  "process_results e parsed raw \<noteq> [] \<Longrightarrow> raw \<noteq> []"
  by (auto simp: process_results_def)

lemma no_extraction_no_records:
  "\<forall>s\<in>set steps. action s \<noteq> str ''extract'' \<Longrightarrow> fst (execute_loop b x k steps) = []"
  by (induction steps arbitrary: k) (auto simp: split_def Let_def split: sum.splits)

lemma execute_body_Inr:
  assumes "execute_body e instr tid = Inr r"
  shows "\<exists>parsed. parse (llm e) instr = Inr parsed
           \<and> r = \<lparr>task_id = tid,
                   status = (if fst (execute_loop (browser e) (extract_data e parsed) 0 (plan parsed)) \<noteq> []
                             then ascii ''success'' else ascii ''error''),
                   er_instruction = instr,
                   results = process_results e parsed
                     (fst (execute_loop (browser e) (extract_data e parsed) 0 (plan parsed))),
                   error_message = None\<rparr>"
  using assms
  by (auto simp: execute_body_def bind_err_Inr execute_steps_def Let_def split_def
      split: if_splits)

text \<open>
  Claim C1, as the code has it.  The status of the returned result is \<open>success\<close> or \<open>error\<close>,
  never \<open>partial\<close>.  It is \<open>error\<close>, with an empty record list and the exception attached,
  whenever an exception escaped to the top level of \<open>execute\<close>.  When none escaped, it is
  \<open>success\<close> exactly if the extraction steps of the run accumulated at least one record
  (the list before the second normalisation pass), and \<open>error\<close> otherwise; in particular it
  is \<open>error\<close> for every plan without extraction steps.  A non-empty final record list
  always comes with \<open>success\<close>.
\<close>

theorem execute_status:
  "(status (execute e instr tid) = ascii ''success'' \<or> status (execute e instr tid) = ascii ''error'')
   \<and> status (execute e instr tid) \<noteq> ascii ''partial''
   \<and> (results (execute e instr tid) \<noteq> [] \<longrightarrow> status (execute e instr tid) = ascii ''success'')
   \<and> (\<forall>err. execute_body e instr tid = Inl err \<longrightarrow>
         status (execute e instr tid) = ascii ''error'' \<and> results (execute e instr tid) = []
         \<and> error_message (execute e instr tid) = Some err)
   \<and> ((\<forall>err. execute_body e instr tid \<noteq> Inl err) \<longrightarrow>
         error_message (execute e instr tid) = None
         \<and> (\<exists>parsed. parse (llm e) instr = Inr parsed
               \<and> (status (execute e instr tid) = ascii ''success''
                    \<longleftrightarrow> fst (execute_loop (browser e) (extract_data e parsed) 0 (plan parsed)) \<noteq> [])
               \<and> ((\<forall>s\<in>set (plan parsed). action s \<noteq> str ''extract'')
                    \<longrightarrow> status (execute e instr tid) = ascii ''error'')))"
proof (cases "execute_body e instr tid")
  case (Inl err)
  then have "execute e instr tid = \<lparr>task_id = tid, status = ascii ''error'', er_instruction = instr,
      results = [], error_message = Some err\<rparr>"
    by (simp add: execute_def)
  with Inl show ?thesis by (simp add: ascii_def)
next
  case (Inr r)
  then have ex: "execute e instr tid = r" by (simp add: execute_def)
  from execute_body_Inr [OF Inr] obtain parsed where p: "parse (llm e) instr = Inr parsed"
    and r: "r = \<lparr>task_id = tid,
                   status = (if fst (execute_loop (browser e) (extract_data e parsed) 0 (plan parsed)) \<noteq> []
                             then ascii ''success'' else ascii ''error''),
                   er_instruction = instr,
                   results = process_results e parsed
                     (fst (execute_loop (browser e) (extract_data e parsed) 0 (plan parsed))),
                   error_message = None\<rparr>"
    by blast
  have ne: "ascii ''success'' \<noteq> ascii ''error''" "ascii ''success'' \<noteq> ascii ''partial''"
    "ascii ''error'' \<noteq> ascii ''partial''"
    by (simp_all add: ascii_def)
  have st: "status r = ascii ''success'' \<longleftrightarrow>
      fst (execute_loop (browser e) (extract_data e parsed) 0 (plan parsed)) \<noteq> []"
    using ne by (simp add: r)
  have s2: "status r = ascii ''success'' \<or> status r = ascii ''error''" by (simp add: r)
  have s3: "status r \<noteq> ascii ''partial''" using ne by (simp add: r)
  have s4: "results r \<noteq> [] \<longrightarrow> status r = ascii ''success''"
    using process_results_nonempty [of e parsed] st by (auto simp: r)
  have s5: "error_message r = None" by (simp add: r)
  have s6: "(\<forall>s\<in>set (plan parsed). action s \<noteq> str ''extract'') \<longrightarrow> status r = ascii ''error''"
    using no_extraction_no_records [of "plan parsed" "browser e" "extract_data e parsed" 0]
    by (simp add: r)
  from Inr p st s2 s3 s4 s5 s6 show ?thesis unfolding ex by auto
qed

lemmas run_defs = execute_def execute_body_def execute_steps_def process_results_def
  parse_def parse_body_def create_fallback_instruction_def fallback_task_def
  get_default_url_def get_default_selectors_def get_default_actions_def lower_def lower_cp_def
  plan_def plan_body_def bind_err_def dict_def get_or_def new_step_def enhance_step_def
  get_selector_def fallback_selectors_def harden_step_def wait_step_def
  execute_step_with_retry_def failed_result_def browser_actions_def
  search_selectors_def navigate_selectors_def extract_selectors_def
  startswith_def str_def ascii_def upt_rec Let_def

theorem execute_status_witness:
  "status (execute fruitful_env (ascii ''search laptops'') (ascii ''t1'')) = ascii ''success''
   \<and> results (execute fruitful_env (ascii ''search laptops'') (ascii ''t1'')) = [laptop_record]
   \<and> map_sum id (\<lambda>p. list_ex (\<lambda>s. action s = str ''extract'') (plan p))
         (parse LLMFails (ascii ''go to example.com'')) = Inr False
   \<and> status (execute obliging_env (ascii ''go to example.com'') (ascii ''t2'')) = ascii ''error''"
proof -
  have n: "map_sum id (\<lambda>p. list_ex (\<lambda>s. action s = str ''extract'') (plan p))
         (parse LLMFails (ascii ''go to example.com'')) = Inr False"
    by (simp add: run_defs)
  have x: "\<forall>err. execute_body obliging_env (ascii ''go to example.com'') (ascii ''t2'') \<noteq> Inl err"
    by (simp add: obliging_env_def run_defs)
  have r: "results (execute fruitful_env (ascii ''search laptops'') (ascii ''t1''))
      = [laptop_record]"
    by (simp add: fruitful_env_def laptop_fragment_def laptop_record_def run_defs)
  have l: "llm obliging_env = LLMFails" by (simp add: obliging_env_def)
  from x execute_status [of obliging_env "ascii ''go to example.com''" "ascii ''t2''"]
  obtain parsed where p: "parse (llm obliging_env) (ascii ''go to example.com'') = Inr parsed"
    and imp: "(\<forall>s\<in>set (plan parsed). action s \<noteq> str ''extract'')
      \<longrightarrow> status (execute obliging_env (ascii ''go to example.com'') (ascii ''t2'')) = ascii ''error''"
    by blast
  from p l n have "\<not> list_ex (\<lambda>s. action s = str ''extract'') (plan parsed)" by simp
  with imp
  have o: "status (execute obliging_env (ascii ''go to example.com'') (ascii ''t2'')) = ascii ''error''"
    by (simp add: list_ex_iff)
  from r n o execute_status [of fruitful_env "ascii ''search laptops''" "ascii ''t1''"]
  show ?thesis by simp
qed

text \<open>
  The claim as it is written fails for a plan without extraction steps: the fallback intent
  for ``go to example.com'' is a navigation, its plan is \<open>goto\<close>, \<open>wait\<close>; every step
  succeeds, no exception escapes, and the status is \<open>error\<close>.
\<close>

theorem execute_navigation_counterexample:
  "map_sum id (\<lambda>p. map action (plan p)) (parse LLMFails (ascii ''go to example.com''))
     = Inr [str ''goto'', str ''wait'']
   \<and> error_message (execute obliging_env (ascii ''go to example.com'') (ascii ''t1'')) = None
   \<and> status (execute obliging_env (ascii ''go to example.com'') (ascii ''t1'')) = ascii ''error''"
  by (simp add: obliging_env_def run_defs)

section \<open>Properties of the session memory\<close>

lemma py_sorted_desc_split:
  assumes "py_sorted key True xs = ys @ zs"
  shows "\<forall>k\<in>set ys. \<forall>d\<in>set zs. key d \<le> key k"
proof -
  from assms have "sort_key key (rev xs) = rev zs @ rev ys"
    by (simp add: py_sorted_def rev_swap)
  moreover have "sorted (map key (sort_key key (rev xs)))" by simp
  ultimately have "sorted (map key (rev zs) @ map key (rev ys))" by simp
  then show ?thesis by (auto simp: sorted_append)
qed

lemma py_sorted_mset: "mset (py_sorted key r xs) = mset xs"
  by (simp add: py_sorted_def)

lemma newer_than_naive:
  "\<forall>m\<in>set ms. is_naive (timestamp m) \<Longrightarrow>
     newer_than c ms = Inr (filter (\<lambda>m. c < micros (timestamp m)) ms)"
proof (induction ms)
  case Nil
  show ?case by simp
next
  case (Cons m ms)
  then obtain t where "timestamp m = Naive t" by (cases "timestamp m") auto
  with Cons show ?case by simp
qed

lemma py_incr_numeric: "numeric v \<Longrightarrow> \<exists>w. py_incr v = Inr w \<and> numeric w"
proof (cases v)
  case (PFloat f)
  then show ?thesis by (cases f) simp_all
qed simp_all

lemma update_counters_numeric:
  assumes "numeric (total_tasks ctx)" "numeric (successful_tasks ctx)" "numeric (failed_tasks ctx)"
  shows "\<exists>ctx'. update_counters succ now ctx = (ctx', True)
           \<and> numeric (total_tasks ctx') \<and> numeric (successful_tasks ctx')
           \<and> numeric (failed_tasks ctx')"
proof -
  from py_incr_numeric [OF assms(1)] obtain t where t: "py_incr (total_tasks ctx) = Inr t" "numeric t"
    by blast
  from py_incr_numeric [OF assms(2)] obtain v where v: "py_incr (successful_tasks ctx) = Inr v" "numeric v"
    by blast
  from py_incr_numeric [OF assms(3)] obtain w where w: "py_incr (failed_tasks ctx) = Inr w" "numeric w"
    by blast
  from t v w assms show ?thesis
    by (cases succ) (simp_all add: update_counters_def Let_def)
qed

lemma cleanup_old_memories_retention:
  assumes "\<forall>m\<in>set (memories mem). is_naive (timestamp m)"
  shows "(\<forall>m\<in>set (memories (cleanup_old_memories now mem)).
       is_naive (timestamp m) \<and> now - timedelta_days memory_ttl_days < micros (timestamp m))
   \<and> length (memories (cleanup_old_memories now mem)) \<le> max_memories
   \<and> (\<exists>dropped.
         mset (memories (cleanup_old_memories now mem) @ dropped)
           = mset (filter (\<lambda>m. now - timedelta_days memory_ttl_days < micros (timestamp m))
                     (memories mem))
         \<and> (\<forall>k\<in>set (memories (cleanup_old_memories now mem)).
               \<forall>d\<in>set dropped. micros (timestamp d) \<le> micros (timestamp k))
         \<and> (dropped \<noteq> [] \<longrightarrow> length (memories (cleanup_old_memories now mem)) = max_memories))
   \<and> session_context (cleanup_old_memories now mem) = session_context mem"
proof -
  define cutoff where "cutoff = now - timedelta_days memory_ttl_days"
  define kept where "kept = filter (\<lambda>m. cutoff < micros (timestamp m)) (memories mem)"
  have nt: "newer_than (now - timedelta_days memory_ttl_days) (memories mem) = Inr kept"
    unfolding kept_def cutoff_def by (rule newer_than_naive [OF assms])
  have kn: "\<forall>m\<in>set kept. is_naive (timestamp m) \<and> cutoff < micros (timestamp m)"
    using assms by (simp add: kept_def)
  show ?thesis
  proof (cases "length kept > max_memories")
    case False
    then have res: "cleanup_old_memories now mem = mem\<lparr>memories := kept\<rparr>"
      by (simp add: cleanup_old_memories_def nt)
    show ?thesis
      unfolding res cutoff_def [symmetric]
    proof (intro conjI)
      show "\<forall>m\<in>set (memories (mem\<lparr>memories := kept\<rparr>)).
          is_naive (timestamp m) \<and> cutoff < micros (timestamp m)"
        using kn by simp
      show "length (memories (mem\<lparr>memories := kept\<rparr>)) \<le> max_memories"
        using False by simp
      show "\<exists>dropped.
         mset (memories (mem\<lparr>memories := kept\<rparr>) @ dropped)
           = mset (filter (\<lambda>m. cutoff < micros (timestamp m)) (memories mem))
         \<and> (\<forall>k\<in>set (memories (mem\<lparr>memories := kept\<rparr>)).
               \<forall>d\<in>set dropped. micros (timestamp d) \<le> micros (timestamp k))
         \<and> (dropped \<noteq> [] \<longrightarrow> length (memories (mem\<lparr>memories := kept\<rparr>)) = max_memories)"
        by (rule exI [of _ "[]"]) (simp add: kept_def)
      show "session_context (mem\<lparr>memories := kept\<rparr>) = session_context mem"
        by simp
    qed
  next
    case True
    let ?s = "py_sorted (\<lambda>m. micros (timestamp m)) True kept"
    from True have res: "cleanup_old_memories now mem = mem\<lparr>memories := take max_memories ?s\<rparr>"
      by (simp add: cleanup_old_memories_def nt)
    have "set (take max_memories ?s) \<subseteq> set ?s" by (rule set_take_subset)
    moreover have "set ?s = set kept"
      using py_sorted_mset [of "\<lambda>m. micros (timestamp m)" True kept] by (metis set_mset_mset)
    ultimately have fresh: "\<forall>m\<in>set (take max_memories ?s).
        is_naive (timestamp m) \<and> cutoff < micros (timestamp m)"
      using kn by blast
    have len: "length (take max_memories ?s) \<le> max_memories" by simp
    have "length ?s = length kept"
      using py_sorted_mset [of "\<lambda>m. micros (timestamp m)" True kept] by (metis size_mset)
    with True have full: "length (take max_memories ?s) = max_memories" by simp
    have ms: "mset (take max_memories ?s @ drop max_memories ?s) = mset kept"
      using py_sorted_mset [of "\<lambda>m. micros (timestamp m)" True kept] by simp
    have ord: "\<forall>k\<in>set (take max_memories ?s). \<forall>d\<in>set (drop max_memories ?s).
        micros (timestamp d) \<le> micros (timestamp k)"
      by (rule py_sorted_desc_split [of "\<lambda>m. micros (timestamp m)" kept]) simp
    show ?thesis
      unfolding res cutoff_def [symmetric]
    proof (intro conjI)
      show "\<forall>m\<in>set (memories (mem\<lparr>memories := take max_memories ?s\<rparr>)).
          is_naive (timestamp m) \<and> cutoff < micros (timestamp m)"
        using fresh by simp
      show "length (memories (mem\<lparr>memories := take max_memories ?s\<rparr>)) \<le> max_memories"
        using len by simp
      show "\<exists>dropped.
         mset (memories (mem\<lparr>memories := take max_memories ?s\<rparr>) @ dropped)
           = mset (filter (\<lambda>m. cutoff < micros (timestamp m)) (memories mem))
         \<and> (\<forall>k\<in>set (memories (mem\<lparr>memories := take max_memories ?s\<rparr>)).
               \<forall>d\<in>set dropped. micros (timestamp d) \<le> micros (timestamp k))
         \<and> (dropped \<noteq> []
              \<longrightarrow> length (memories (mem\<lparr>memories := take max_memories ?s\<rparr>)) = max_memories)"
      proof (rule exI [of _ "drop max_memories ?s"], intro conjI)
        show "mset (memories (mem\<lparr>memories := take max_memories ?s\<rparr>) @ drop max_memories ?s)
           = mset (filter (\<lambda>m. cutoff < micros (timestamp m)) (memories mem))"
          using ms by (simp add: kept_def)
        show "\<forall>k\<in>set (memories (mem\<lparr>memories := take max_memories ?s\<rparr>)).
               \<forall>d\<in>set (drop max_memories ?s). micros (timestamp d) \<le> micros (timestamp k)"
          using ord by simp
        show "drop max_memories ?s \<noteq> []
              \<longrightarrow> length (memories (mem\<lparr>memories := take max_memories ?s\<rparr>)) = max_memories"
          using full by simp
      qed
      show "session_context (mem\<lparr>memories := take max_memories ?s\<rparr>) = session_context mem"
        by simp
    qed
  qed
qed

text \<open>
  Claim C8, as the code has it.  Let the store be as \<open>add_memory\<close> itself writes it: its
  timestamps are naive and its session counters are numbers.  Then after a call of
  \<open>add_memory\<close> every entry of the store is younger than seven days at the clock reading of
  the cleanup, the store has at most 100 entries, and the entries are the unexpired ones
  (old entries and the new one) less a list of dropped entries, none of which is more
  recent than an entry that was kept; entries are dropped only when 100 remain.  The call
  returns the new id, and the store is again as \<open>add_memory\<close> writes it, so the same holds
  for every later call.
\<close>

theorem add_memory_retention:
  "sound_store mem \<longrightarrow>
   (\<forall>m\<in>set (memories (fst (add_memory uuid clk instr res succ ttype meta mem))).
       cleanup_time clk - timedelta_days 7 < micros (timestamp m))
   \<and> length (memories (fst (add_memory uuid clk instr res succ ttype meta mem))) \<le> 100
   \<and> (\<exists>dropped.
         mset (memories (fst (add_memory uuid clk instr res succ ttype meta mem)) @ dropped)
           = mset (filter (\<lambda>m. cleanup_time clk - timedelta_days 7 < micros (timestamp m))
                    (memories mem @ [\<lparr>entry_id = uuid, instruction = instr, result = res,
                        timestamp = Naive (entry_time clk), task_type = ttype, success = succ,
                        metadata = (if truthy meta then meta else PDict [])\<rparr>]))
         \<and> (\<forall>k\<in>set (memories (fst (add_memory uuid clk instr res succ ttype meta mem))).
               \<forall>d\<in>set dropped. micros (timestamp d) \<le> micros (timestamp k))
         \<and> (dropped \<noteq> []
              \<longrightarrow> length (memories (fst (add_memory uuid clk instr res succ ttype meta mem))) = 100))
   \<and> snd (add_memory uuid clk instr res succ ttype meta mem) = uuid
   \<and> sound_store (fst (add_memory uuid clk instr res succ ttype meta mem))"
proof
  assume sound: "sound_store mem"
  define entry :: "'a MemoryEntry" where
    "entry = \<lparr>entry_id = uuid, instruction = instr, result = res,
              timestamp = Naive (entry_time clk), task_type = ttype, success = succ,
              metadata = (if truthy meta then meta else PDict [])\<rparr>"
  obtain mem2 where r: "add_memory uuid clk instr res succ ttype meta mem
             = (cleanup_old_memories (cleanup_time clk) mem2, uuid)"
    and m2: "memories mem2 = memories mem @ [entry]"
    and c2: "case session_context mem2 of
            None \<Rightarrow> True
          | Some ctx \<Rightarrow> numeric (total_tasks ctx) \<and> numeric (successful_tasks ctx)
                        \<and> numeric (failed_tasks ctx)"
  proof (cases "session_context mem")
    case None
    then have "add_memory uuid clk instr res succ ttype meta mem
        = (cleanup_old_memories (cleanup_time clk) (mem\<lparr>memories := memories mem @ [entry]\<rparr>), uuid)"
      by (simp add: add_memory_def Let_def entry_def)
    with None that [of "mem\<lparr>memories := memories mem @ [entry]\<rparr>"] show ?thesis by simp
  next
    case (Some ctx)
    with sound have "numeric (total_tasks ctx)" "numeric (successful_tasks ctx)"
      "numeric (failed_tasks ctx)"
      by (simp_all add: sound_store_def)
    from update_counters_numeric [OF this, of succ "activity_time clk"]
    obtain ctx' where u: "update_counters succ (activity_time clk) ctx = (ctx', True)"
      and n: "numeric (total_tasks ctx')" "numeric (successful_tasks ctx')"
        "numeric (failed_tasks ctx')"
      by blast
    from Some u have "add_memory uuid clk instr res succ ttype meta mem
        = (cleanup_old_memories (cleanup_time clk)
             (mem\<lparr>memories := memories mem @ [entry], session_context := Some ctx'\<rparr>), uuid)"
      by (simp add: add_memory_def Let_def entry_def)
    with n that [of "mem\<lparr>memories := memories mem @ [entry], session_context := Some ctx'\<rparr>"]
    show ?thesis by simp
  qed
  have naive2: "\<forall>m\<in>set (memories mem2). is_naive (timestamp m)"
    using sound by (auto simp: m2 sound_store_def entry_def)
  from cleanup_old_memories_retention [OF naive2, of "cleanup_time clk"] c2
  show "(\<forall>m\<in>set (memories (fst (add_memory uuid clk instr res succ ttype meta mem))).
       cleanup_time clk - timedelta_days 7 < micros (timestamp m))
   \<and> length (memories (fst (add_memory uuid clk instr res succ ttype meta mem))) \<le> 100
   \<and> (\<exists>dropped.
         mset (memories (fst (add_memory uuid clk instr res succ ttype meta mem)) @ dropped)
           = mset (filter (\<lambda>m. cleanup_time clk - timedelta_days 7 < micros (timestamp m))
                    (memories mem @ [\<lparr>entry_id = uuid, instruction = instr, result = res,
                        timestamp = Naive (entry_time clk), task_type = ttype, success = succ,
                        metadata = (if truthy meta then meta else PDict [])\<rparr>]))
         \<and> (\<forall>k\<in>set (memories (fst (add_memory uuid clk instr res succ ttype meta mem))).
               \<forall>d\<in>set dropped. micros (timestamp d) \<le> micros (timestamp k))
         \<and> (dropped \<noteq> []
              \<longrightarrow> length (memories (fst (add_memory uuid clk instr res succ ttype meta mem))) = 100))
   \<and> snd (add_memory uuid clk instr res succ ttype meta mem) = uuid
   \<and> sound_store (fst (add_memory uuid clk instr res succ ttype meta mem))"
    unfolding r fst_conv snd_conv m2 entry_def max_memories_def memory_ttl_days_def sound_store_def
    by simp
qed

theorem add_memory_retention_witness:
  "memories (fst (add_memory (ascii ''b'') ninth_day (ascii ''go to example.com'') () False
                    (ascii ''navigate'') PNone
                    \<lparr>memories = [stale_entry], session_context = Some fresh_context\<rparr>))
     = [\<lparr>entry_id = ascii ''b'', instruction = ascii ''go to example.com'', result = (),
          timestamp = Naive 700000000000, task_type = ascii ''navigate'', success = False,
          metadata = PDict []\<rparr>]
   \<and> cleanup_time ninth_day - timedelta_days 7 < 700000000000
   \<and> micros (timestamp stale_entry) \<le> cleanup_time ninth_day - timedelta_days 7"
proof -
  have h: "sound_store \<lparr>memories = [stale_entry], session_context = Some fresh_context\<rparr>"
    by (simp add: sound_store_def stale_entry_def fresh_context_def)
  have e: "memories (fst (add_memory (ascii ''b'') ninth_day (ascii ''go to example.com'') () False
                    (ascii ''navigate'') PNone
                    \<lparr>memories = [stale_entry], session_context = Some fresh_context\<rparr>))
     = [\<lparr>entry_id = ascii ''b'', instruction = ascii ''go to example.com'', result = (),
          timestamp = Naive 700000000000, task_type = ascii ''navigate'', success = False,
          metadata = PDict []\<rparr>]"
    by (simp add: add_memory_def cleanup_old_memories_def update_counters_def stale_entry_def
        ninth_day_def fresh_context_def timedelta_days_def memory_ttl_days_def max_memories_def
        Let_def)
  have s: "micros (timestamp stale_entry) \<le> cleanup_time ninth_day - timedelta_days 7"
    by (simp add: stale_entry_def ninth_day_def timedelta_days_def)
  from h e s add_memory_retention [of "\<lparr>memories = [stale_entry], session_context = Some fresh_context\<rparr>"
      "ascii ''b''" ninth_day "ascii ''go to example.com''" "()" False "ascii ''navigate''" PNone]
  show ?thesis by simp
qed

text \<open>
  The claim as it is written fails on stores that were loaded or imported from a file.
  With an offset-aware timestamp in the store, the comparison of the cleanup raises, the
  exception is caught, and nothing is removed: the entry of time 0 is still there on the
  ninth day.  With a session counter that is not a number (here \<open>null\<close>), the counter
  update raises after the entry was appended; \<open>add_memory\<close> returns the empty string and the
  cleanup is not reached.
\<close>

theorem add_memory_stale_counterexample:
  "map timestamp (memories (fst (add_memory (ascii ''b'') ninth_day (ascii ''go to example.com'')
       () False (ascii ''navigate'') PNone
       \<lparr>memories = [stale_aware_entry], session_context = Some fresh_context\<rparr>)))
     = [Aware 0, Naive 700000000000]
   \<and> micros (Aware 0) \<le> cleanup_time ninth_day - timedelta_days 7
   \<and> map timestamp (memories (fst (add_memory (ascii ''b'') ninth_day (ascii ''go to example.com'')
       () False (ascii ''navigate'') PNone
       \<lparr>memories = [stale_entry],
        session_context = Some (fresh_context\<lparr>total_tasks := PNone\<rparr>)\<rparr>)))
     = [Naive 0, Naive 700000000000]
   \<and> snd (add_memory (ascii ''b'') ninth_day (ascii ''go to example.com'')
       () False (ascii ''navigate'') PNone
       \<lparr>memories = [stale_entry],
        session_context = Some (fresh_context\<lparr>total_tasks := PNone\<rparr>)\<rparr>) = []"
  by (simp add: add_memory_def cleanup_old_memories_def update_counters_def stale_entry_def
      stale_aware_entry_def ninth_day_def fresh_context_def timedelta_days_def
      memory_ttl_days_def max_memories_def Let_def)

end
